theory Spec2Isabelle
  imports Main "HOL-Library.Multiset" "HOL-Library.Word"
begin

section \<open>Data model of main.go\<close>

text \<open>
  \<open>main.go\<close> holds two versions of the program.  In the inline version (lines 1-190) the
  goroutine body of \<open>ExecuteRemoteCommands\<close> does all the work; in the refactored version
  (lines 191-379) it calls \<open>setupSSHClient\<close> and \<open>executeCommand\<close>.  Both are modelled:
  names ending in \<open>_v1\<close> belong to the inline version, names ending in \<open>_v2\<close> to the
  refactored one.

  A Go \<open>error\<close> is modelled by its message; a possibly-nil error is an \<open>error option\<close>
  (\<open>None\<close> is \<open>nil\<close>).  \<open>fmt.Errorf\<close> and \<open>fmt.Sprintf\<close> with \<open>%s\<close> and \<open>%v\<close> are string
  concatenation.  \<open>time.Duration\<close> is an int64.
\<close>

type_synonym error = string

record SSHConfig =
  Hosts :: "string list"
  Port :: string
  User :: string
  Password :: string
  KeyPath :: string
  Timeout :: "64 word"

record CommandResult =
  Hostname :: string
  Output :: string
  Error :: "error option"

subsection \<open>The ssh library as seen by one goroutine\<close>

datatype Signer = Signer string

datatype AuthMethod = ssh_PublicKeys Signer | ssh_Password string

datatype HostKeyCallback = ssh_InsecureIgnoreHostKey

record ClientConfig =
  cc_User :: string
  cc_Auth :: "AuthMethod list"
  cc_HostKeyCallback :: HostKeyCallback
  cc_Timeout :: "64 word"

text \<open>
  A \<open>*ssh.Client\<close> is the address it was dialled at and the number of sessions opened on
  it so far; \<open>client.NewSession()\<close> advances that counter.
\<close>

datatype Client = Client (client_addr: string) (client_sessions: nat)

text \<open>
  The outcomes of the library and system calls one goroutine makes.  Calls on a session
  are indexed by the number of the session on its connection (the k-th \<open>NewSession\<close>).
  \<open>None\<close> is a nil error.  \<open>io.ReadAll\<close> returns the bytes read and an error.  Every
  goroutine has a world of its own: the outcomes of its calls are not an input of the
  calls of another goroutine.  Every call returns, with a value or an error: a call that
  never returns (a remote command that hangs) is outside the model.
\<close>

record ssh_world =
  os_ReadFile :: "string \<Rightarrow> error + string"
  ssh_ParsePrivateKey :: "string \<Rightarrow> error + Signer"
  ssh_Dial :: "string \<Rightarrow> string \<Rightarrow> ClientConfig \<Rightarrow> error option"
  client_NewSession :: "nat \<Rightarrow> error option"
  session_StdoutPipe :: "nat \<Rightarrow> error option"
  session_Start :: "nat \<Rightarrow> string \<Rightarrow> error option"
  io_ReadAll :: "nat \<Rightarrow> string \<Rightarrow> string \<times> error option"
  session_Wait :: "nat \<Rightarrow> string \<Rightarrow> error option"

text \<open>The calls a goroutine makes, in the order it makes them.\<close>

datatype ssh_call =
    Call_ReadFile string
  | Call_ParsePrivateKey string
  | Call_Dial string string ClientConfig
  | Call_NewSession nat
  | Call_StdoutPipe nat
  | Call_Start nat string
  | Call_ReadAll nat
  | Call_Wait nat
  | Call_SessionClose nat
  | Call_ClientClose

section \<open>The per-host unit of work\<close>

text \<open>\<open>fmt.Sprintf("Command '%s' failed: %v\n", cmd, err)\<close>\<close>

definition Sprintf_failed :: "string \<Rightarrow> error \<Rightarrow> string" where
  "Sprintf_failed cmd err =
     ''Command '' @ [CHR 0x27] @ cmd @ [CHR 0x27] @ '' failed: '' @ err @ [CHR 0x0A]"

text \<open>\<open>fmt.Sprintf("Command '%s' output:\n%s\n", cmd, output)\<close>\<close>

definition Sprintf_output :: "string \<Rightarrow> string \<Rightarrow> string" where
  "Sprintf_output cmd output =
     ''Command '' @ [CHR 0x27] @ cmd @ [CHR 0x27] @ '' output:'' @ [CHR 0x0A] @ output @ [CHR 0x0A]"

text \<open>
  The choice of \<open>authMethod\<close> (lines 49-70 of the inline version, 228-243 of
  \<open>setupSSHClient\<close>; the two blocks differ only in how the error leaves the function).
\<close>

definition select_authMethod :: "ssh_world \<Rightarrow> SSHConfig \<Rightarrow> ssh_call list \<times> (error + AuthMethod)" where
  "select_authMethod w config =
     (if KeyPath config \<noteq> [] then
        (case os_ReadFile w (KeyPath config) of
           Inl err \<Rightarrow> ([Call_ReadFile (KeyPath config)], Inl (''read key: '' @ err))
         | Inr key \<Rightarrow>
             (case ssh_ParsePrivateKey w key of
                Inl err \<Rightarrow>
                  ([Call_ReadFile (KeyPath config), Call_ParsePrivateKey key],
                   Inl (''parse key: '' @ err))
              | Inr signer \<Rightarrow>
                  ([Call_ReadFile (KeyPath config), Call_ParsePrivateKey key],
                   Inr (ssh_PublicKeys signer))))
      else if Password config \<noteq> [] then ([], Inr (ssh_Password (Password config)))
      else ([], Inl ''no auth method''))"

text \<open>
  The client configuration (lines 72-77 and 245-250) and the address dialled (lines 79-83
  and 252-256), the same in both versions.
\<close>

definition make_clientConfig :: "SSHConfig \<Rightarrow> AuthMethod \<Rightarrow> ClientConfig" where
  "make_clientConfig config authMethod =
     \<lparr>cc_User = User config, cc_Auth = [authMethod],
      cc_HostKeyCallback = ssh_InsecureIgnoreHostKey, cc_Timeout = Timeout config\<rparr>"

definition make_addr :: "SSHConfig \<Rightarrow> string \<Rightarrow> string" where
  "make_addr config host =
     (let port = (if Port config = [] then ''22'' else Port config)
      in host @ '':'' @ port)"

subsection \<open>Refactored version (lines 227-328)\<close>

definition setupSSHClient :: "ssh_world \<Rightarrow> string \<Rightarrow> SSHConfig \<Rightarrow> ssh_call list \<times> (error + Client)" where
  "setupSSHClient w host config =
     (case select_authMethod w config of
        (cs, Inl err) \<Rightarrow> (cs, Inl err)
      | (cs, Inr authMethod) \<Rightarrow>
          (let clientConfig = make_clientConfig config authMethod;
               addr = make_addr config host
           in case ssh_Dial w ''tcp'' addr clientConfig of
                Some err \<Rightarrow> (cs @ [Call_Dial ''tcp'' addr clientConfig], Inl err)
              | None \<Rightarrow> (cs @ [Call_Dial ''tcp'' addr clientConfig], Inr (Client addr 0))))"

text \<open>
  \<open>executeCommand\<close> returns the calls made, the \<open>(string, error)\<close> pair and the client
  with its session counter advanced.  The results of \<open>io.ReadAll\<close>'s error and of
  \<open>session.Wait()\<close> are dropped, as in the source.
\<close>

definition executeCommand :: "ssh_world \<Rightarrow> Client \<Rightarrow> string \<Rightarrow> ssh_call list \<times> (error + string) \<times> Client" where
  "executeCommand w client cmd =
     (let k = client_sessions client;
          client' = Client (client_addr client) (Suc k)
      in case client_NewSession w k of
           Some err \<Rightarrow> ([Call_NewSession k], Inl (''session: '' @ err), client')
         | None \<Rightarrow>
             (case session_StdoutPipe w k of
                Some err \<Rightarrow>
                  ([Call_NewSession k, Call_StdoutPipe k, Call_SessionClose k],
                   Inl (''stdout pipe: '' @ err), client')
              | None \<Rightarrow>
                  (case session_Start w k cmd of
                     Some err \<Rightarrow>
                       ([Call_NewSession k, Call_StdoutPipe k, Call_Start k cmd, Call_SessionClose k],
                        Inl (''start command: '' @ err), client')
                   | None \<Rightarrow>
                       (let buf = fst (io_ReadAll w k cmd)
                        in ([Call_NewSession k, Call_StdoutPipe k, Call_Start k cmd,
                             Call_ReadAll k, Call_Wait k, Call_SessionClose k],
                            Inr buf, client')))))"

text \<open>The loop \<open>for _, cmd := range commands\<close> of lines 303-310.\<close>

fun run_commands_v2 :: "ssh_world \<Rightarrow> Client \<Rightarrow> ssh_call list \<Rightarrow> string \<Rightarrow> string list \<Rightarrow> ssh_call list \<times> string" where
  "run_commands_v2 w client trace combinedOutput [] = (trace, combinedOutput)"
| "run_commands_v2 w client trace combinedOutput (cmd # cmds) =
     (case executeCommand w client cmd of
        (cs, Inl err, client') \<Rightarrow>
          run_commands_v2 w client' (trace @ cs) (combinedOutput @ Sprintf_failed cmd err) cmds
      | (cs, Inr output, client') \<Rightarrow>
          run_commands_v2 w client' (trace @ cs) (combinedOutput @ Sprintf_output cmd output) cmds)"

text \<open>
  The goroutine body of lines 289-314: the calls it makes and the values it sends on
  \<open>results\<close>.
\<close>

definition goroutine_v2 :: "ssh_world \<Rightarrow> SSHConfig \<Rightarrow> string list \<Rightarrow> string \<Rightarrow> ssh_call list \<times> CommandResult list" where
  "goroutine_v2 w config commands currentHost =
     (let hostResult = \<lparr>Hostname = currentHost, Output = [], Error = None\<rparr>
      in case setupSSHClient w currentHost config of
           (cs, Inl err) \<Rightarrow>
             (cs, [hostResult\<lparr>Error := Some (''dial '' @ currentHost @ '': '' @ err)\<rparr>])
         | (cs, Inr client) \<Rightarrow>
             (case run_commands_v2 w client cs [] commands of
                (trace, combinedOutput) \<Rightarrow>
                  (trace @ [Call_ClientClose], [hostResult\<lparr>Output := combinedOutput\<rparr>])))"

subsection \<open>Inline version (lines 38-139)\<close>

text \<open>
  The loop of lines 94-121 together with the two statements after it (lines 123-124):
  a failing \<open>NewSession\<close> or \<open>StdoutPipe\<close> sends \<open>hostResult\<close> with the error and returns.
\<close>

fun run_commands_v1 :: "ssh_world \<Rightarrow> Client \<Rightarrow> CommandResult \<Rightarrow> ssh_call list \<Rightarrow> string \<Rightarrow> string list \<Rightarrow> ssh_call list \<times> CommandResult list" where
  "run_commands_v1 w client hostResult trace combinedOutput [] =
     (trace, [hostResult\<lparr>Output := combinedOutput\<rparr>])"
| "run_commands_v1 w client hostResult trace combinedOutput (cmd # cmds) =
     (let k = client_sessions client;
          client' = Client (client_addr client) (Suc k)
      in case client_NewSession w k of
           Some err \<Rightarrow>
             (trace @ [Call_NewSession k], [hostResult\<lparr>Error := Some (''session: '' @ err)\<rparr>])
         | None \<Rightarrow>
             (case session_StdoutPipe w k of
                Some err \<Rightarrow>
                  (trace @ [Call_NewSession k, Call_StdoutPipe k, Call_SessionClose k],
                   [hostResult\<lparr>Error := Some (''stdout pipe: '' @ err)\<rparr>])
              | None \<Rightarrow>
                  (case session_Start w k cmd of
                     Some err \<Rightarrow>
                       run_commands_v1 w client' hostResult
                         (trace @ [Call_NewSession k, Call_StdoutPipe k, Call_Start k cmd,
                                   Call_SessionClose k])
                         (combinedOutput @ Sprintf_failed cmd err) cmds
                   | None \<Rightarrow>
                       (let buf = fst (io_ReadAll w k cmd)
                        in run_commands_v1 w client' hostResult
                             (trace @ [Call_NewSession k, Call_StdoutPipe k, Call_Start k cmd,
                                       Call_ReadAll k, Call_Wait k, Call_SessionClose k])
                             (combinedOutput @ Sprintf_output cmd buf) cmds))))"

definition goroutine_v1 :: "ssh_world \<Rightarrow> SSHConfig \<Rightarrow> string list \<Rightarrow> string \<Rightarrow> ssh_call list \<times> CommandResult list" where
  "goroutine_v1 w config commands currentHost =
     (let hostResult = \<lparr>Hostname = currentHost, Output = [], Error = None\<rparr>
      in case select_authMethod w config of
           (cs, Inl err) \<Rightarrow> (cs, [hostResult\<lparr>Error := Some err\<rparr>])
         | (cs, Inr authMethod) \<Rightarrow>
             (let clientConfig = make_clientConfig config authMethod;
                  addr = make_addr config currentHost
              in case ssh_Dial w ''tcp'' addr clientConfig of
                   Some err \<Rightarrow>
                     (cs @ [Call_Dial ''tcp'' addr clientConfig],
                      [hostResult\<lparr>Error := Some (''dial '' @ currentHost @ '': '' @ err)\<rparr>])
                 | None \<Rightarrow>
                     (case run_commands_v1 w (Client addr 0) hostResult
                             (cs @ [Call_Dial ''tcp'' addr clientConfig]) [] commands of
                        (trace, sends) \<Rightarrow> (trace @ [Call_ClientClose], sends))))"

section \<open>The coordinator\<close>

text \<open>
  The memory \<open>ExecuteRemoteCommands\<close> and its goroutines share: the two parameters (read
  by every goroutine through the closure), the wait group counter, the buffered channel
  \<open>results\<close> (its queue, capacity and closed flag) and the slice \<open>commandResults\<close>.

  A goroutine touches this memory only when it sends its result and in its deferred
  \<open>wg.Done()\<close>, so each goroutine is run as one step, at the moment the scheduler lets it
  send.  The channel is a queue, so the receiving loop of the caller is run once, after
  the channel is closed: receiving earlier fills \<open>commandResults\<close> in the same order.
\<close>

record exec_state =
  mem_config :: SSHConfig
  mem_commands :: "string list"
  wg :: int
  results :: "CommandResult list"
  results_cap :: nat
  results_closed :: bool
  commandResults :: "CommandResult list"

text \<open>
  \<open>results <- hostResult\<close>: \<open>None\<close> when the send cannot complete (the buffer is full, or the
  channel is closed).
\<close>

definition chan_send :: "CommandResult \<Rightarrow> exec_state \<Rightarrow> exec_state option" where
  "chan_send v st =
     (if results_closed st then None
      else if length (results st) < results_cap st then Some (st\<lparr>results := results st @ [v]\<rparr>)
      else None)"

fun send_all :: "CommandResult list \<Rightarrow> exec_state \<Rightarrow> exec_state option" where
  "send_all [] st = Some st"
| "send_all (v # vs) st = (case chan_send v st of None \<Rightarrow> None | Some st' \<Rightarrow> send_all vs st')"

type_synonym goroutine_body =
  "ssh_world \<Rightarrow> SSHConfig \<Rightarrow> string list \<Rightarrow> string \<Rightarrow> ssh_call list \<times> CommandResult list"

text \<open>
  One goroutine \<open>go func(currentHost string) {...}(host)\<close> run to its end: its sends, then
  the deferred \<open>wg.Done()\<close>.  It reads \<open>config\<close> and \<open>commands\<close> from the shared memory.
\<close>

definition run_goroutine :: "goroutine_body \<Rightarrow> ssh_world \<Rightarrow> string \<Rightarrow> exec_state \<Rightarrow> exec_state option" where
  "run_goroutine body w currentHost st =
     (case send_all (snd (body w (mem_config st) (mem_commands st) currentHost)) st of
        None \<Rightarrow> None
      | Some st' \<Rightarrow> Some (st'\<lparr>wg := wg st' - 1\<rparr>))"

text \<open>
  The loop \<open>for _, host := range config.Hosts\<close>: \<open>wg.Add(1)\<close> and one goroutine launched
  per host, remembered with the position of its host in the list.
\<close>

fun launch :: "nat \<Rightarrow> string list \<Rightarrow> exec_state \<Rightarrow> (nat \<times> string) list \<Rightarrow> exec_state \<times> (nat \<times> string) list" where
  "launch i [] st gs = (st, gs)"
| "launch i (host # hosts) st gs = launch (Suc i) hosts (st\<lparr>wg := wg st + 1\<rparr>) (gs @ [(i, host)])"

text \<open>
  The order in which the launched goroutines reach their send is the scheduler's: each
  entry of \<open>sched\<close> picks the next goroutine among those still running (launch order once
  \<open>sched\<close> is used up).  \<open>arrival\<close> is that order alone.
\<close>

definition pick :: "nat list \<Rightarrow> nat \<Rightarrow> nat" where
  "pick sched n = (case sched of [] \<Rightarrow> 0 | c # _ \<Rightarrow> c mod n)"

function arrival :: "nat list \<Rightarrow> 'a list \<Rightarrow> 'a list" where
  "arrival sched [] = []"
| "arrival sched (g # gs) =
     (let n = pick sched (Suc (length gs))
      in (g # gs) ! n # arrival (tl sched) (take n (g # gs) @ drop (Suc n) (g # gs)))"
  by pat_completeness auto
termination
  by (relation "measure (\<lambda>(sched, gs). length gs)") (auto simp: pick_def split: list.splits)

function run_goroutines :: "goroutine_body \<Rightarrow> nat list \<Rightarrow> (nat \<Rightarrow> ssh_world) \<Rightarrow> (nat \<times> string) list \<Rightarrow> exec_state \<Rightarrow> exec_state option" where
  "run_goroutines body sched worlds [] st = Some st"
| "run_goroutines body sched worlds (g # gs) st =
     (let n = pick sched (Suc (length gs))
      in case run_goroutine body (worlds (fst ((g # gs) ! n))) (snd ((g # gs) ! n)) st of
           None \<Rightarrow> None
         | Some st' \<Rightarrow>
             run_goroutines body (tl sched) worlds (take n (g # gs) @ drop (Suc n) (g # gs)) st')"
  by pat_completeness auto
termination
  by (relation "measure (\<lambda>(body, sched, worlds, gs, st). length gs)")
     (auto simp: pick_def split: list.splits)

text \<open>\<open>go func() { wg.Wait(); close(results) }()\<close>: \<open>None\<close> when \<open>wg.Wait()\<close> never returns.\<close>

definition wait_and_close :: "exec_state \<Rightarrow> exec_state option" where
  "wait_and_close st = (if wg st = 0 then Some (st\<lparr>results_closed := True\<rparr>) else None)"

text \<open>
  \<open>for result := range results { commandResults = append(commandResults, result) }\<close>:
  the loop ends when the channel is closed and drained, and never ends otherwise.
\<close>

fun range_results :: "CommandResult list \<Rightarrow> CommandResult list \<Rightarrow> CommandResult list" where
  "range_results [] collected = collected"
| "range_results (result # queue) collected = range_results queue (collected @ [result])"

definition collect :: "exec_state \<Rightarrow> exec_state option" where
  "collect st =
     (if results_closed st
      then Some (st\<lparr>commandResults := range_results (results st) (commandResults st), results := []\<rparr>)
      else None)"

text \<open>
  \<open>ExecuteRemoteCommands\<close> around a goroutine body (the code outside the body is the same
  in both versions).  The result is the final memory, whose \<open>commandResults\<close> is the value
  returned; \<open>None\<close> when the call never returns.
\<close>

definition coordinator :: "goroutine_body \<Rightarrow> nat list \<Rightarrow> (nat \<Rightarrow> ssh_world) \<Rightarrow> SSHConfig \<Rightarrow> string list \<Rightarrow> exec_state option" where
  "coordinator body sched worlds config commands =
     (let st0 = \<lparr>mem_config = config, mem_commands = commands, wg = 0, results = [],
                 results_cap = length (Hosts config), results_closed = False,
                 commandResults = []\<rparr>
      in case launch 0 (Hosts (mem_config st0)) st0 [] of
           (st1, gs) \<Rightarrow>
             (case run_goroutines body sched worlds gs st1 of
                None \<Rightarrow> None
              | Some st2 \<Rightarrow>
                  (case wait_and_close st2 of None \<Rightarrow> None | Some st3 \<Rightarrow> collect st3)))"

definition ExecuteRemoteCommands_v1 :: "nat list \<Rightarrow> (nat \<Rightarrow> ssh_world) \<Rightarrow> SSHConfig \<Rightarrow> string list \<Rightarrow> exec_state option" where
  "ExecuteRemoteCommands_v1 = coordinator goroutine_v1"

definition ExecuteRemoteCommands_v2 :: "nat list \<Rightarrow> (nat \<Rightarrow> ssh_world) \<Rightarrow> SSHConfig \<Rightarrow> string list \<Rightarrow> exec_state option" where
  "ExecuteRemoteCommands_v2 = coordinator goroutine_v2"

section \<open>Notions used to state the claims\<close>

text \<open>The value returned to the caller, if the call returns.\<close>

definition returned :: "exec_state option \<Rightarrow> CommandResult list option" where
  "returned r = map_option commandResults r"

text \<open>What the goroutine launched for the host at position \<open>fst g\<close> sends on \<open>results\<close>.\<close>

definition sent :: "goroutine_body \<Rightarrow> (nat \<Rightarrow> ssh_world) \<Rightarrow> SSHConfig \<Rightarrow> string list \<Rightarrow> nat \<times> string \<Rightarrow> CommandResult list" where
  "sent body worlds config commands g = snd (body (worlds (fst g)) config commands (snd g))"

text \<open>A goroutine body that, on every path, sends one result, carrying its host's name.\<close>

definition sends_once :: "goroutine_body \<Rightarrow> bool" where
  "sends_once body =
     (\<forall>w config commands h. \<exists>r. snd (body w config commands h) = [r] \<and> Hostname r = h)"

text \<open>
  A host-level failure: no credential can be set up (neither key path nor password, or a
  key that cannot be read or parsed), or \<open>ssh.Dial\<close>, which connects and authenticates,
  returns an error.  These are the cases in which \<open>setupSSHClient\<close> returns an error,
  and in which the inline version returns before its loop.
\<close>

definition host_level_failure :: "ssh_world \<Rightarrow> SSHConfig \<Rightarrow> string \<Rightarrow> bool" where
  "host_level_failure w config host =
     (case select_authMethod w config of
        (cs, Inl err) \<Rightarrow> True
      | (cs, Inr authMethod) \<Rightarrow>
          ssh_Dial w ''tcp'' (make_addr config host) (make_clientConfig config authMethod) \<noteq> None)"

text \<open>
  The same cases read off the configuration and the library alone (lines 49-90 and
  227-259).  With a key path: the key file cannot be read, or cannot be parsed, or the dial
  with the public-key credential returns an error.  With a password only: the dial with
  the password returns an error.  With neither: there is no usable credential.  The dial
  is the one the source makes: network \<open>tcp\<close>, address \<open>host:port\<close> with port 22 by default,
  the configured user and timeout, and the host key not checked.
\<close>

definition cannot_connect :: "ssh_world \<Rightarrow> SSHConfig \<Rightarrow> string \<Rightarrow> bool" where
  "cannot_connect w config host =
     (let addr = host @ '':'' @ (if Port config = [] then ''22'' else Port config);
          dial_fails = (\<lambda>credential.
            ssh_Dial w ''tcp'' addr
              \<lparr>cc_User = User config, cc_Auth = [credential],
               cc_HostKeyCallback = ssh_InsecureIgnoreHostKey, cc_Timeout = Timeout config\<rparr> \<noteq> None)
      in if KeyPath config \<noteq> [] then
           (case os_ReadFile w (KeyPath config) of
              Inl err \<Rightarrow> True
            | Inr key \<Rightarrow>
                (case ssh_ParsePrivateKey w key of
                   Inl err \<Rightarrow> True
                 | Inr signer \<Rightarrow> dial_fails (ssh_PublicKeys signer)))
         else if Password config \<noteq> [] then dial_fails (ssh_Password (Password config))
         else True)"

text \<open>The calls made to run a command: everything done with a session.\<close>

fun is_command_call :: "ssh_call \<Rightarrow> bool" where
  "is_command_call (Call_NewSession k) = True"
| "is_command_call (Call_StdoutPipe k) = True"
| "is_command_call (Call_Start k cmd) = True"
| "is_command_call (Call_ReadAll k) = True"
| "is_command_call (Call_Wait k) = True"
| "is_command_call (Call_SessionClose k) = True"
| "is_command_call c = False"

text \<open>The \<open>Auth\<close> field of the client configuration of each \<open>ssh.Dial\<close> in a trace.\<close>

fun dial_auths :: "ssh_call list \<Rightarrow> AuthMethod list list" where
  "dial_auths [] = []"
| "dial_auths (Call_Dial network addr clientConfig # cs) = cc_Auth clientConfig # dial_auths cs"
| "dial_auths (c # cs) = dial_auths cs"

text \<open>
  Session \<open>k\<close> of a connection can be used: \<open>NewSession\<close> and \<open>StdoutPipe\<close> succeed.
  \<open>all_sessions_ok w k cmds\<close> says so of the sessions that commands \<open>cmds\<close> get when the
  first of them gets session \<open>k\<close>.
\<close>

definition session_ok :: "ssh_world \<Rightarrow> nat \<Rightarrow> bool" where
  "session_ok w k = (client_NewSession w k = None \<and> session_StdoutPipe w k = None)"

definition all_sessions_ok :: "ssh_world \<Rightarrow> nat \<Rightarrow> string list \<Rightarrow> bool" where
  "all_sessions_ok w k cmds = list_all (\<lambda>(j, cmd). session_ok w j) (enumerate k cmds)"

text \<open>
  Every command of \<open>cmds\<close> gets a usable session and starts (the first of them on
  session \<open>k\<close>).
\<close>

definition no_command_failure :: "ssh_world \<Rightarrow> nat \<Rightarrow> string list \<Rightarrow> bool" where
  "no_command_failure w k cmds =
     list_all (\<lambda>(j, cmd). session_ok w j \<and> session_Start w j cmd = None) (enumerate k cmds)"

text \<open>
  The text one iteration of the loop appends to \<open>combinedOutput\<close> for command \<open>cmd\<close> on
  session \<open>k\<close>: in the inline version (lines 110-120, reached when the session can be
  used) and in the refactored version (lines 304-309).  \<open>blob\<close> concatenates the entries
  of a command list in its order.
\<close>

definition entry_v1 :: "ssh_world \<Rightarrow> nat \<Rightarrow> string \<Rightarrow> string" where
  "entry_v1 w k cmd =
     (case session_Start w k cmd of
        Some err \<Rightarrow> Sprintf_failed cmd err
      | None \<Rightarrow> Sprintf_output cmd (fst (io_ReadAll w k cmd)))"

definition entry_v2 :: "ssh_world \<Rightarrow> nat \<Rightarrow> string \<Rightarrow> string" where
  "entry_v2 w k cmd =
     (case fst (snd (executeCommand w (Client [] k) cmd)) of
        Inl err \<Rightarrow> Sprintf_failed cmd err
      | Inr output \<Rightarrow> Sprintf_output cmd output)"

definition blob :: "(nat \<Rightarrow> string \<Rightarrow> string) \<Rightarrow> nat \<Rightarrow> string list \<Rightarrow> string" where
  "blob entry k cmds = concat (map (\<lambda>(j, cmd). entry j cmd) (enumerate k cmds))"

text \<open>
  The behaviour of a host on which the two versions send the same result: the credential
  is set up, and either the dial fails or every command gets a usable session and starts.
\<close>

definition agreeing_behaviour :: "ssh_world \<Rightarrow> SSHConfig \<Rightarrow> string list \<Rightarrow> string \<Rightarrow> bool" where
  "agreeing_behaviour w config commands host =
     (case select_authMethod w config of
        (cs, Inl err) \<Rightarrow> False
      | (cs, Inr authMethod) \<Rightarrow>
          ssh_Dial w ''tcp'' (make_addr config host) (make_clientConfig config authMethod) \<noteq> None \<or>
          no_command_failure w 0 commands)"

section \<open>Concrete inputs\<close>

text \<open>
  A host on which everything succeeds and every command prints \<open>ok\<close>, and variants of it on
  which one kind of call fails.
\<close>

definition demo_world :: ssh_world where
  "demo_world =
     \<lparr>os_ReadFile = (\<lambda>path. Inr ''KEY''),
      ssh_ParsePrivateKey = (\<lambda>key. Inr (Signer key)),
      ssh_Dial = (\<lambda>network addr clientConfig. None),
      client_NewSession = (\<lambda>k. None),
      session_StdoutPipe = (\<lambda>k. None),
      session_Start = (\<lambda>k cmd. None),
      io_ReadAll = (\<lambda>k cmd. (''ok'', None)),
      session_Wait = (\<lambda>k cmd. None)\<rparr>"

definition dial_fail_world :: ssh_world where
  "dial_fail_world = demo_world\<lparr>ssh_Dial := (\<lambda>network addr clientConfig. Some ''connection refused'')\<rparr>"

definition key_fail_world :: ssh_world where
  "key_fail_world = demo_world\<lparr>os_ReadFile := (\<lambda>path. Inl ''no such file'')\<rparr>"

definition session_fail_world :: ssh_world where
  "session_fail_world = demo_world\<lparr>client_NewSession := (\<lambda>k. if k = 1 then Some ''EOF'' else None)\<rparr>"

definition start_fail_world :: ssh_world where
  "start_fail_world =
     demo_world\<lparr>session_Start := (\<lambda>k cmd. if k = 1 then Some ''exec failed'' else None)\<rparr>"

definition wait_fail_world :: ssh_world where
  "wait_fail_world =
     demo_world\<lparr>io_ReadAll := (\<lambda>k cmd. ([], None)),
                session_Wait := (\<lambda>k cmd. Some ''Process exited with status 1'')\<rparr>"

text \<open>
  Two hosts, key authentication and a timeout of five seconds, as \<open>main\<close> sets them up;
  and the same with both credentials, with a password only and with no credential.
\<close>

definition demo_config :: SSHConfig where
  "demo_config =
     \<lparr>Hosts = [''h1'', ''h2''], Port = [], User = ''root'', Password = [],
      KeyPath = ''id_rsa'', Timeout = 5000000000\<rparr>"

definition both_config :: SSHConfig where
  "both_config = demo_config\<lparr>Password := ''secret''\<rparr>"

definition password_config :: SSHConfig where
  "password_config = demo_config\<lparr>KeyPath := [], Password := ''secret''\<rparr>"

definition no_auth_config :: SSHConfig where
  "no_auth_config = demo_config\<lparr>KeyPath := []\<rparr>"

section \<open>The coordinator returns what the goroutines send\<close>

subsection \<open>Launching, scheduling and collecting\<close>

lemma launch_eq:
  "launch i hosts st gs =
     (st\<lparr>wg := wg st + int (length hosts)\<rparr>, gs @ zip [i..<i + length hosts] hosts)"
proof (induction hosts arbitrary: i st gs)
  case Nil
  then show ?case by simp
next
  case (Cons h hs)
  have "[i..<i + length (h # hs)] = i # [Suc i..<Suc i + length hs]"
    by (simp add: upt_rec)
  then show ?case using Cons by simp
qed

lemma pick_less: "pick sched (Suc n) < Suc n"
  by (simp add: pick_def split: list.splits)

lemma mset_arrival: "mset (arrival sched gs) = mset gs"
proof (induction sched gs rule: arrival.induct)
  case (1 sched)
  then show ?case by simp
next
  case (2 sched g gs)
  define n where "n = pick sched (Suc (length gs))"
  have n: "n < length (g # gs)"
    using pick_less[of sched "length gs"] by (simp add: n_def)
  have "mset (g # gs) = mset (take n (g # gs) @ (g # gs) ! n # drop (Suc n) (g # gs))"
    using n by (metis id_take_nth_drop)
  also have "\<dots> = add_mset ((g # gs) ! n) (mset (take n (g # gs) @ drop (Suc n) (g # gs)))"
    by simp
  finally show ?case using 2[OF n_def] by (simp add: n_def[symmetric] Let_def)
qed

lemma length_arrival: "length (arrival sched gs) = length gs"
  using mset_arrival[of sched gs] by (metis size_mset)

lemma run_goroutine_eq:
  assumes "sends_once body" "\<not> results_closed st" "length (results st) < results_cap st"
  shows "run_goroutine body w h st =
    Some (st\<lparr>results := results st @ snd (body w (mem_config st) (mem_commands st) h),
             wg := wg st - 1\<rparr>)"
proof -
  obtain r where "snd (body w (mem_config st) (mem_commands st) h) = [r]"
    using assms(1) unfolding sends_once_def by blast
  then show ?thesis using assms(2,3) by (simp add: run_goroutine_def chan_send_def)
qed

lemma run_goroutines_eq:
  "sends_once body \<Longrightarrow> \<not> results_closed st \<Longrightarrow>
   length (results st) + length gs \<le> results_cap st \<Longrightarrow>
   run_goroutines body sched worlds gs st =
     Some (st\<lparr>results := results st @
                 concat (map (sent body worlds (mem_config st) (mem_commands st)) (arrival sched gs)),
              wg := wg st - int (length gs)\<rparr>)"
proof (induction body sched worlds gs st rule: run_goroutines.induct)
  case (1 body sched worlds st)
  then show ?case by simp
next
  case (2 body sched worlds g gs st)
  define n where "n = pick sched (Suc (length gs))"
  define rest where "rest = take n (g # gs) @ drop (Suc n) (g # gs)"
  define h where "h = (g # gs) ! n"
  define st' where
    "st' = st\<lparr>results := results st @ sent body worlds (mem_config st) (mem_commands st) h,
              wg := wg st - 1\<rparr>"
  have n: "n < Suc (length gs)"
    unfolding n_def by (rule pick_less)
  have len_rest: "length rest = length gs"
    using n by (auto simp: rest_def min_def)
  have step: "run_goroutine body (worlds (fst h)) (snd h) st = Some st'"
    unfolding st'_def sent_def using 2(2,3,4) by (intro run_goroutine_eq) auto
  obtain r where r: "snd (body (worlds (fst h)) (mem_config st) (mem_commands st) (snd h)) = [r]"
    using 2(2) unfolding sends_once_def by blast
  have closed': "\<not> results_closed st'"
    using 2(3) by (simp add: st'_def)
  have cap': "length (results st') + length rest \<le> results_cap st'"
    using 2(4) r by (simp add: st'_def len_rest sent_def)
  have eq1: "run_goroutines body (tl sched) worlds rest st' =
      Some (st'\<lparr>results := results st' @
                   concat (map (sent body worlds (mem_config st') (mem_commands st'))
                     (arrival (tl sched) rest)),
               wg := wg st' - int (length rest)\<rparr>)"
    unfolding rest_def
    by (rule 2(1)[OF n_def step[unfolded h_def] 2(2) closed' cap'[unfolded rest_def]])
  have eq2: "run_goroutines body sched worlds (g # gs) st =
      run_goroutines body (tl sched) worlds rest st'"
    using step by (simp add: n_def[symmetric] h_def[symmetric] rest_def Let_def)
  have eq3: "arrival sched (g # gs) = h # arrival (tl sched) rest"
    by (simp add: n_def[symmetric] h_def[symmetric] rest_def Let_def)
  show ?case
    unfolding eq2 eq1 eq3 by (simp add: st'_def len_rest diff_diff_eq)
qed

lemma range_results_eq: "range_results queue collected = collected @ queue"
  by (induction queue arbitrary: collected) auto

lemma coordinator_eq:
  assumes "sends_once body"
  shows "coordinator body sched worlds config commands =
    Some \<lparr>mem_config = config, mem_commands = commands, wg = 0, results = [],
          results_cap = length (Hosts config), results_closed = True,
          commandResults = concat (map (sent body worlds config commands)
             (arrival sched (zip [0..<length (Hosts config)] (Hosts config))))\<rparr>"
  by (simp add: coordinator_def launch_eq run_goroutines_eq[OF assms] wait_and_close_def
      collect_def range_results_eq)

subsection \<open>Both goroutine bodies send exactly once\<close>

lemma run_commands_v1_sends:
  "\<exists>t r. run_commands_v1 w client hostResult trace combinedOutput cmds = (t, [r]) \<and>
     Hostname r = Hostname hostResult"
  by (induction cmds arbitrary: client trace combinedOutput)
     (auto simp: Let_def split: option.splits)

lemma goroutine_v1_sends_once: "sends_once goroutine_v1"
  unfolding sends_once_def
proof (intro allI)
  fix w config commands h
  show "\<exists>r. snd (goroutine_v1 w config commands h) = [r] \<and> Hostname r = h"
  proof (cases "select_authMethod w config")
    case (Pair cs res)
    show ?thesis
    proof (cases res)
      case (Inl err)
      with Pair show ?thesis by (simp add: goroutine_v1_def)
    next
      case (Inr authMethod)
      show ?thesis
      proof (cases "ssh_Dial w ''tcp'' (make_addr config h) (make_clientConfig config authMethod)")
        case None
        obtain t r where "run_commands_v1 w (Client (make_addr config h) 0)
            \<lparr>Hostname = h, Output = [], Error = None\<rparr>
            (cs @ [Call_Dial ''tcp'' (make_addr config h) (make_clientConfig config authMethod)])
            [] commands = (t, [r])"
          and "Hostname r = h"
          using run_commands_v1_sends by (metis CommandResult.select_convs(1))
        with Pair Inr None show ?thesis by (simp add: goroutine_v1_def Let_def)
      next
        case (Some err)
        with Pair Inr show ?thesis by (simp add: goroutine_v1_def Let_def)
      qed
    qed
  qed
qed

lemma goroutine_v2_sends_once: "sends_once goroutine_v2"
  unfolding sends_once_def
  by (auto simp: goroutine_v2_def Let_def split: prod.splits sum.splits)

lemma sent_single:
  assumes "sends_once body"
  shows "\<exists>r. sent body worlds config commands g = [r] \<and> Hostname r = snd g"
  using assms unfolding sends_once_def sent_def by blast

lemma map_Hostname_sent:
  assumes "sends_once body"
  shows "map Hostname (concat (map (sent body worlds config commands) gs)) = map snd gs"
proof (induction gs)
  case Nil
  then show ?case by simp
next
  case (Cons g gs)
  obtain r where "sent body worlds config commands g = [r]" "Hostname r = snd g"
    using sent_single[OF assms] by blast
  with Cons show ?case by simp
qed

lemma coordinator_hostnames:
  assumes "sends_once body"
  shows "\<exists>st. coordinator body sched worlds config commands = Some st \<and>
           length (commandResults st) = length (Hosts config) \<and>
           mset (map Hostname (commandResults st)) = mset (Hosts config)"
proof -
  let ?gs = "zip [0..<length (Hosts config)] (Hosts config)"
  define rs where "rs = concat (map (sent body worlds config commands) (arrival sched ?gs))"
  have names: "map Hostname rs = map snd (arrival sched ?gs)"
    unfolding rs_def by (rule map_Hostname_sent[OF assms])
  have hosts: "map snd ?gs = Hosts config"
    by (rule map_snd_zip) simp
  have "mset (map snd (arrival sched ?gs)) = image_mset snd (mset (arrival sched ?gs))"
    by (simp only: mset_map)
  also have "\<dots> = image_mset snd (mset ?gs)"
    by (simp only: mset_arrival)
  also have "\<dots> = mset (map snd ?gs)"
    by (simp only: mset_map)
  finally have m: "mset (map Hostname rs) = mset (Hosts config)"
    by (simp only: names hosts)
  have "length rs = length (map Hostname rs)"
    by simp
  also have "\<dots> = length (Hosts config)"
    by (simp only: names length_map length_arrival) simp
  finally have l: "length rs = length (Hosts config)" .
  show ?thesis
    unfolding coordinator_eq[OF assms] rs_def[symmetric] using l m by simp
qed

section \<open>What one goroutine sends\<close>

subsection \<open>The command loops\<close>

lemma blob_Nil: "blob entry k [] = []"
  by (simp add: blob_def)

lemma blob_Cons: "blob entry k (cmd # cmds) = entry k cmd @ blob entry (Suc k) cmds"
  by (simp add: blob_def)

lemma executeCommand_client:
  "snd (snd (executeCommand w (Client a k) cmd)) = Client a (Suc k)"
  by (simp add: executeCommand_def Let_def split: option.splits)

lemma executeCommand_addr:
  "fst (snd (executeCommand w (Client a k) cmd)) = fst (snd (executeCommand w (Client b k) cmd))"
  by (simp add: executeCommand_def Let_def split: option.splits)

lemma run_commands_v2_output:
  "snd (run_commands_v2 w (Client a k) trace combinedOutput cmds) =
     combinedOutput @ blob (entry_v2 w) k cmds"
proof (induction cmds arbitrary: k trace combinedOutput)
  case Nil
  then show ?case by (simp add: blob_Nil)
next
  case (Cons cmd cmds)
  obtain cs res client' where ex: "executeCommand w (Client a k) cmd = (cs, res, client')"
    by (cases "executeCommand w (Client a k) cmd") auto
  have c': "client' = Client a (Suc k)"
    using executeCommand_client[of w a k cmd] ex by simp
  have res: "fst (snd (executeCommand w (Client [] k) cmd)) = res"
    using executeCommand_addr[of w "[]" k cmd a] ex by simp
  show ?case
    using ex Cons[of "Suc k"] by (cases res) (simp_all add: c' entry_v2_def res blob_Cons)
qed

lemma all_sessions_ok_Nil: "all_sessions_ok w k []"
  by (simp add: all_sessions_ok_def)

lemma all_sessions_ok_Cons:
  "all_sessions_ok w k (cmd # cmds) = (session_ok w k \<and> all_sessions_ok w (Suc k) cmds)"
  by (simp add: all_sessions_ok_def)

lemma entry_v1_failed: "session_Start w k cmd = Some err \<Longrightarrow> entry_v1 w k cmd = Sprintf_failed cmd err"
  by (simp add: entry_v1_def)

lemma entry_v1_output:
  "session_Start w k cmd = None \<Longrightarrow> entry_v1 w k cmd = Sprintf_output cmd (fst (io_ReadAll w k cmd))"
  by (simp add: entry_v1_def)

lemma run_commands_v1_ok:
  "all_sessions_ok w k cmds \<Longrightarrow>
   snd (run_commands_v1 w (Client a k) hostResult trace combinedOutput cmds) =
     [hostResult\<lparr>Output := combinedOutput @ blob (entry_v1 w) k cmds\<rparr>]"
proof (induction cmds arbitrary: k trace combinedOutput)
  case Nil
  then show ?case by (simp add: blob_Nil)
next
  case (Cons cmd cmds)
  then show ?case
    by (cases "session_Start w k cmd")
       (simp_all add: Let_def session_ok_def entry_v1_failed entry_v1_output blob_Cons
         all_sessions_ok_Cons)
qed

lemma run_commands_v1_abort:
  "\<not> all_sessions_ok w k cmds \<Longrightarrow>
   \<exists>err. snd (run_commands_v1 w (Client a k) hostResult trace combinedOutput cmds) =
     [hostResult\<lparr>Error := Some err\<rparr>]"
proof (induction cmds arbitrary: k trace combinedOutput)
  case Nil
  then show ?case by (simp add: all_sessions_ok_Nil)
next
  case (Cons cmd cmds)
  show ?case
  proof (cases "session_ok w k")
    case True
    with Cons.prems have "\<not> all_sessions_ok w (Suc k) cmds"
      by (simp add: all_sessions_ok_Cons)
    from Cons.IH[OF this] True show ?thesis
      by (cases "session_Start w k cmd") (simp_all add: Let_def session_ok_def)
  next
    case False
    then show ?thesis
      by (auto simp: Let_def session_ok_def split: option.splits)
  qed
qed

subsection \<open>The goroutine bodies by cases\<close>

lemma host_level_failure_cases:
  "host_level_failure w config h \<Longrightarrow>
     (\<exists>cs err. select_authMethod w config = (cs, Inl err)) \<or>
     (\<exists>cs authMethod err. select_authMethod w config = (cs, Inr authMethod) \<and>
        ssh_Dial w ''tcp'' (make_addr config h) (make_clientConfig config authMethod) = Some err)"
  by (auto simp: host_level_failure_def split: prod.splits sum.splits)

lemma connected_cases:
  "\<not> host_level_failure w config h \<Longrightarrow>
     \<exists>cs authMethod. select_authMethod w config = (cs, Inr authMethod) \<and>
        ssh_Dial w ''tcp'' (make_addr config h) (make_clientConfig config authMethod) = None"
  by (auto simp: host_level_failure_def split: prod.splits sum.splits)

lemma cannot_connect_iff:
  "cannot_connect w config host \<longleftrightarrow> host_level_failure w config host"
  by (simp add: cannot_connect_def host_level_failure_def select_authMethod_def make_addr_def
      make_clientConfig_def Let_def split: sum.splits)

lemma select_authMethod_calls:
  "list_all (\<lambda>c. \<not> is_command_call c) (fst (select_authMethod w config))"
  by (simp add: select_authMethod_def split: sum.splits)

lemma goroutine_v1_failure:
  assumes "host_level_failure w config h"
  shows "\<exists>cs err. goroutine_v1 w config commands h =
           (cs, [\<lparr>Hostname = h, Output = [], Error = Some err\<rparr>]) \<and>
           list_all (\<lambda>c. \<not> is_command_call c) cs"
  using host_level_failure_cases[OF assms] select_authMethod_calls[of w config]
  by (auto simp: goroutine_v1_def Let_def)

lemma goroutine_v2_failure:
  assumes "host_level_failure w config h"
  shows "\<exists>cs err. goroutine_v2 w config commands h =
           (cs, [\<lparr>Hostname = h, Output = [], Error = Some err\<rparr>]) \<and>
           list_all (\<lambda>c. \<not> is_command_call c) cs"
  using host_level_failure_cases[OF assms] select_authMethod_calls[of w config]
  by (auto simp: goroutine_v2_def setupSSHClient_def Let_def)

lemma goroutine_v2_connected:
  assumes "\<not> host_level_failure w config h"
  shows "snd (goroutine_v2 w config commands h) =
           [\<lparr>Hostname = h, Output = blob (entry_v2 w) 0 commands, Error = None\<rparr>]"
proof -
  obtain cs authMethod where sel: "select_authMethod w config = (cs, Inr authMethod)"
    and dial: "ssh_Dial w ''tcp'' (make_addr config h) (make_clientConfig config authMethod) = None"
    using connected_cases[OF assms] by blast
  let ?tr = "cs @ [Call_Dial ''tcp'' (make_addr config h) (make_clientConfig config authMethod)]"
  have "snd (run_commands_v2 w (Client (make_addr config h) 0) ?tr [] commands) =
          blob (entry_v2 w) 0 commands"
    by (simp add: run_commands_v2_output)
  then show ?thesis
    using sel dial
    by (auto simp: goroutine_v2_def setupSSHClient_def Let_def split: prod.splits)
qed

lemma goroutine_v1_connected_ok:
  assumes "\<not> host_level_failure w config h" "all_sessions_ok w 0 commands"
  shows "snd (goroutine_v1 w config commands h) =
           [\<lparr>Hostname = h, Output = blob (entry_v1 w) 0 commands, Error = None\<rparr>]"
proof -
  obtain cs authMethod where sel: "select_authMethod w config = (cs, Inr authMethod)"
    and dial: "ssh_Dial w ''tcp'' (make_addr config h) (make_clientConfig config authMethod) = None"
    using connected_cases[OF assms(1)] by blast
  show ?thesis
    using sel dial run_commands_v1_ok[OF assms(2), of "make_addr config h"
        "\<lparr>Hostname = h, Output = [], Error = None\<rparr>"
        "cs @ [Call_Dial ''tcp'' (make_addr config h) (make_clientConfig config authMethod)]" "[]"]
    by (auto simp: goroutine_v1_def Let_def split: prod.splits)
qed

lemma goroutine_v1_connected_abort:
  assumes "\<not> host_level_failure w config h" "\<not> all_sessions_ok w 0 commands"
  shows "\<exists>err. snd (goroutine_v1 w config commands h) =
           [\<lparr>Hostname = h, Output = [], Error = Some err\<rparr>]"
proof -
  obtain cs authMethod where sel: "select_authMethod w config = (cs, Inr authMethod)"
    and dial: "ssh_Dial w ''tcp'' (make_addr config h) (make_clientConfig config authMethod) = None"
    using connected_cases[OF assms(1)] by blast
  show ?thesis
    using sel dial run_commands_v1_abort[OF assms(2), of "make_addr config h"
        "\<lparr>Hostname = h, Output = [], Error = None\<rparr>"
        "cs @ [Call_Dial ''tcp'' (make_addr config h) (make_clientConfig config authMethod)]" "[]"]
    by (auto simp: goroutine_v1_def Let_def split: prod.splits)
qed

section \<open>The returned results are the results sent\<close>

lemma mset_concat_map_arrival:
  "mset (concat (map f (arrival sched gs))) = mset (concat (map f gs))"
proof -
  have "mset (concat (map f ys)) = sum_mset (image_mset (\<lambda>y. mset (f y)) (mset ys))" for ys
    by (induction ys) simp_all
  then show ?thesis by (simp only: mset_arrival)
qed

lemma coordinator_results:
  assumes "sends_once body"
  shows "\<exists>st. coordinator body sched worlds config commands = Some st \<and>
           mset (commandResults st) =
             mset (concat (map (sent body worlds config commands) (enumerate 0 (Hosts config)))) \<and>
           length (commandResults st) = length (Hosts config) \<and>
           mem_config st = config \<and> mem_commands st = commands"
proof -
  obtain st where st: "coordinator body sched worlds config commands = Some st"
    and l: "length (commandResults st) = length (Hosts config)"
    using coordinator_hostnames[OF assms] by blast
  have "mset (commandResults st) =
          mset (concat (map (sent body worlds config commands) (enumerate 0 (Hosts config))))"
    using st unfolding coordinator_eq[OF assms]
    by (auto simp: mset_concat_map_arrival enumerate_eq_zip simp del: mset_concat)
  moreover have "mem_config st = config \<and> mem_commands st = commands"
    using st unfolding coordinator_eq[OF assms] by auto
  ultimately show ?thesis using st l by blast
qed

lemma sent_in_results:
  assumes "i < length hosts" "sent body worlds config commands (i, hosts ! i) = [r]"
  shows "r \<in># mset (concat (map (sent body worlds config commands) (enumerate 0 hosts)))"
proof -
  have "(i, hosts ! i) \<in> set (enumerate 0 hosts)"
    using assms(1) by (simp add: in_set_enumerate_eq)
  then show ?thesis using assms(2) by force
qed

subsection \<open>Unfolding on concrete inputs\<close>

lemmas eval_defs = goroutine_v1_def goroutine_v2_def select_authMethod_def make_addr_def
  make_clientConfig_def setupSSHClient_def executeCommand_def demo_world_def demo_config_def
  session_fail_world_def dial_fail_world_def Let_def host_level_failure_def

lemmas run_defs = returned_def ExecuteRemoteCommands_v1_def ExecuteRemoteCommands_v2_def
  coordinator_def run_goroutine_def chan_send_def pick_def wait_and_close_def collect_def

subsection \<open>Each host's result is returned, and nothing else\<close>

lemma host_result_returned:
  assumes "sends_once body" "i < length (Hosts config)"
  shows "\<exists>st r. coordinator body sched worlds config commands = Some st \<and>
           sent body worlds config commands (i, Hosts config ! i) = [r] \<and>
           r \<in> set (commandResults st) \<and>
           length (commandResults st) = length (Hosts config)"
proof -
  obtain st where st: "coordinator body sched worlds config commands = Some st"
    and m: "mset (commandResults st) =
             mset (concat (map (sent body worlds config commands) (enumerate 0 (Hosts config))))"
    and l: "length (commandResults st) = length (Hosts config)"
    using coordinator_results[OF assms(1)] by blast
  obtain r where r: "sent body worlds config commands (i, Hosts config ! i) = [r]"
    using sent_single[OF assms(1)] by blast
  have "r \<in># mset (commandResults st)"
    unfolding m by (rule sent_in_results[OF assms(2) r])
  then have "r \<in> set (commandResults st)" by simp
  with st r l show ?thesis by blast
qed

lemma all_hosts_returned:
  assumes "sends_once body"
  shows "\<exists>st. coordinator body sched worlds config commands = Some st \<and>
           length (commandResults st) = length (Hosts config) \<and>
           (\<forall>j<length (Hosts config).
              \<exists>r. sent body worlds config commands (j, Hosts config ! j) = [r] \<and>
                  r \<in> set (commandResults st))"
proof -
  obtain st where st: "coordinator body sched worlds config commands = Some st"
    and m: "mset (commandResults st) =
             mset (concat (map (sent body worlds config commands) (enumerate 0 (Hosts config))))"
    and l: "length (commandResults st) = length (Hosts config)"
    using coordinator_results[OF assms] by blast
  have "\<exists>r. sent body worlds config commands (j, Hosts config ! j) = [r] \<and>
            r \<in> set (commandResults st)" if j: "j < length (Hosts config)" for j
  proof -
    obtain r where r: "sent body worlds config commands (j, Hosts config ! j) = [r]"
      using sent_single[OF assms] by blast
    have "r \<in># mset (commandResults st)"
      unfolding m by (rule sent_in_results[OF j r])
    with r show ?thesis by auto
  qed
  with st l show ?thesis by blast
qed

lemma returned_result_sent:
  assumes "sends_once body" "coordinator body sched worlds config commands = Some st"
    "r \<in> set (commandResults st)"
  shows "\<exists>i<length (Hosts config). sent body worlds config commands (i, Hosts config ! i) = [r]"
proof -
  have "mset (commandResults st) =
          mset (concat (map (sent body worlds config commands) (enumerate 0 (Hosts config))))"
    using coordinator_results[OF assms(1), of sched worlds config commands] assms(2) by auto
  then have "set (commandResults st) =
          set (concat (map (sent body worlds config commands) (enumerate 0 (Hosts config))))"
    by (metis set_mset_mset)
  with assms(3) obtain g where g: "g \<in> set (enumerate 0 (Hosts config))"
    and rg: "r \<in> set (sent body worlds config commands g)"
    by auto
  obtain r' where r': "sent body worlds config commands g = [r']"
    using sent_single[OF assms(1)] by blast
  have "fst g < length (Hosts config) \<and> Hosts config ! fst g = snd g"
    using g by (simp add: in_set_enumerate_eq)
  then have "g = (fst g, Hosts config ! fst g)" "fst g < length (Hosts config)"
    by simp_all
  with rg r' show ?thesis by (metis empty_iff empty_set set_ConsD)
qed

lemma host_failure_result:
  assumes body: "sends_once body"
      and fail: "\<And>w h. host_level_failure w config h \<Longrightarrow>
                  \<exists>cs err. body w config commands h =
                    (cs, [\<lparr>Hostname = h, Output = [], Error = Some err\<rparr>]) \<and>
                    list_all (\<lambda>c. \<not> is_command_call c) cs"
      and i: "i < length (Hosts config)"
      and hlf: "host_level_failure (worlds i) config (Hosts config ! i)"
  shows "\<exists>st cs r. coordinator body sched worlds config commands = Some st \<and>
            body (worlds i) config commands (Hosts config ! i) = (cs, [r]) \<and>
            r \<in> set (commandResults st) \<and>
            Hostname r = Hosts config ! i \<and> Error r \<noteq> None \<and> Output r = [] \<and>
            list_all (\<lambda>c. \<not> is_command_call c) cs \<and>
            length (commandResults st) = length (Hosts config) \<and>
            (\<forall>j<length (Hosts config).
               \<exists>r'. sent body worlds config commands (j, Hosts config ! j) = [r'] \<and>
                    r' \<in> set (commandResults st))"
proof -
  obtain st where st: "coordinator body sched worlds config commands = Some st"
    and l: "length (commandResults st) = length (Hosts config)"
    and all: "\<forall>j<length (Hosts config).
              \<exists>r. sent body worlds config commands (j, Hosts config ! j) = [r] \<and>
                  r \<in> set (commandResults st)"
    using all_hosts_returned[OF body] by blast
  obtain r where r: "sent body worlds config commands (i, Hosts config ! i) = [r]"
    and mem: "r \<in> set (commandResults st)"
    using all i by blast
  obtain cs err where g: "body (worlds i) config commands (Hosts config ! i) =
      (cs, [\<lparr>Hostname = Hosts config ! i, Output = [], Error = Some err\<rparr>])"
    and calls: "list_all (\<lambda>c. \<not> is_command_call c) cs"
    using fail[OF hlf] by blast
  have req: "r = \<lparr>Hostname = Hosts config ! i, Output = [], Error = Some err\<rparr>"
    using r g by (simp add: sent_def)
  show ?thesis
  proof (rule exI[of _ st], rule exI[of _ cs], rule exI[of _ r], intro conjI)
    show "coordinator body sched worlds config commands = Some st" by (rule st)
    show "body (worlds i) config commands (Hosts config ! i) = (cs, [r])"
      using g req by simp
    show "r \<in> set (commandResults st)" by (rule mem)
    show "Hostname r = Hosts config ! i" "Error r \<noteq> None" "Output r = []"
      using req by simp_all
    show "list_all (\<lambda>c. \<not> is_command_call c) cs" by (rule calls)
    show "length (commandResults st) = length (Hosts config)" by (rule l)
    show "\<forall>j<length (Hosts config).
               \<exists>r'. sent body worlds config commands (j, Hosts config ! j) = [r'] \<and>
                    r' \<in> set (commandResults st)" by (rule all)
  qed
qed

section \<open>Further properties of the goroutine bodies\<close>

subsection \<open>A terminal error comes with an empty output\<close>

lemma goroutine_v1_error_output:
  assumes "snd (goroutine_v1 w config commands h) = [r]" "Error r \<noteq> None"
  shows "Output r = []"
proof (cases "host_level_failure w config h")
  case True
  from goroutine_v1_failure[OF True, of commands] assms(1) show ?thesis by auto
next
  case False
  show ?thesis
  proof (cases "all_sessions_ok w 0 commands")
    case True
    from goroutine_v1_connected_ok[OF False True] assms show ?thesis by auto
  next
    case no: False
    from goroutine_v1_connected_abort[OF False no] assms(1) show ?thesis by auto
  qed
qed

lemma goroutine_v2_error_output:
  assumes "snd (goroutine_v2 w config commands h) = [r]" "Error r \<noteq> None"
  shows "Output r = []"
proof (cases "host_level_failure w config h")
  case True
  from goroutine_v2_failure[OF True, of commands] assms(1) show ?thesis by auto
next
  case False
  from goroutine_v2_connected[OF False] assms show ?thesis by auto
qed

subsection \<open>Entries of the output\<close>

lemma entry_v1_names_command:
  "\<exists>rest. entry_v1 w k cmd = ''Command '' @ [CHR 0x27] @ cmd @ [CHR 0x27] @ rest"
  by (cases "session_Start w k cmd") (simp_all add: entry_v1_def Sprintf_failed_def Sprintf_output_def)

lemma entry_v2_names_command:
  "\<exists>rest. entry_v2 w k cmd = ''Command '' @ [CHR 0x27] @ cmd @ [CHR 0x27] @ rest"
  by (cases "fst (snd (executeCommand w (Client [] k) cmd))")
     (simp_all add: entry_v2_def Sprintf_failed_def Sprintf_output_def)

lemma no_command_failure_Nil: "no_command_failure w k []"
  by (simp add: no_command_failure_def)

lemma no_command_failure_Cons:
  "no_command_failure w k (cmd # cmds) =
     (session_ok w k \<and> session_Start w k cmd = None \<and> no_command_failure w (Suc k) cmds)"
  by (simp add: no_command_failure_def)

lemma no_command_failure_sessions: "no_command_failure w k cmds \<Longrightarrow> all_sessions_ok w k cmds"
  by (induction cmds arbitrary: k)
     (simp_all add: no_command_failure_Cons all_sessions_ok_Nil all_sessions_ok_Cons)

lemma entry_v2_eq:
  "entry_v2 w k cmd =
     (case client_NewSession w k of
        Some err \<Rightarrow> Sprintf_failed cmd (''session: '' @ err)
      | None \<Rightarrow>
          (case session_StdoutPipe w k of
             Some err \<Rightarrow> Sprintf_failed cmd (''stdout pipe: '' @ err)
           | None \<Rightarrow>
               (case session_Start w k cmd of
                  Some err \<Rightarrow> Sprintf_failed cmd (''start command: '' @ err)
                | None \<Rightarrow> Sprintf_output cmd (fst (io_ReadAll w k cmd)))))"
  by (simp add: entry_v2_def executeCommand_def Let_def split: option.splits)

lemma blob_v1_outputs:
  "no_command_failure w k cmds \<Longrightarrow>
   blob (entry_v1 w) k cmds =
     concat (map (\<lambda>(j, cmd). Sprintf_output cmd (fst (io_ReadAll w j cmd))) (enumerate k cmds))"
  by (induction cmds arbitrary: k) (simp_all add: entry_v1_output blob_Nil blob_Cons no_command_failure_Cons)

lemma blob_v2_outputs:
  "no_command_failure w k cmds \<Longrightarrow>
   blob (entry_v2 w) k cmds =
     concat (map (\<lambda>(j, cmd). Sprintf_output cmd (fst (io_ReadAll w j cmd))) (enumerate k cmds))"
  by (induction cmds arbitrary: k) (simp_all add: entry_v2_eq session_ok_def blob_Nil blob_Cons no_command_failure_Cons)

lemma started_entries:
  assumes "session_ok w k" "session_Start w k cmd = None"
  shows "entry_v1 w k cmd = Sprintf_output cmd (fst (io_ReadAll w k cmd))"
    and "entry_v2 w k cmd = Sprintf_output cmd (fst (io_ReadAll w k cmd))"
  using assms by (simp_all add: entry_v1_def entry_v2_eq session_ok_def)

subsection \<open>Taking one host out of the results\<close>

lemma enumerate_nth: "enumerate 0 xs = map (\<lambda>i. (i, xs ! i)) [0..<length xs]"
proof -
  have "enumerate 0 (map ((!) xs) [0..<length xs]) = map (\<lambda>i. (i, xs ! i)) [0..<length xs]"
    by (simp add: enumerate_map_upt)
  then show ?thesis by (simp add: map_nth)
qed

lemma mset_concat_map_sum_list:
  "mset (concat (map g ys)) = sum_list (map (\<lambda>y. mset (g y)) ys)"
  by (induction ys) simp_all

lemma mset_sent_sum:
  "mset (concat (map f (enumerate 0 xs))) = (\<Sum>i\<in>{0..<length xs}. mset (f (i, xs ! i)))"
proof -
  from mset_concat_map_sum_list[of "\<lambda>i. f (i, xs ! i)" "[0..<length xs]"]
  have "mset (concat (map f (enumerate 0 xs))) =
      sum_list (map (\<lambda>i. mset (f (i, xs ! i))) [0..<length xs])"
    by (simp add: enumerate_nth comp_def del: mset_concat)
  also have "\<dots> = (\<Sum>i\<in>{0..<length xs}. mset (f (i, xs ! i)))"
    by (simp add: interv_sum_list_conv_sum_set_nat)
  finally show ?thesis .
qed

lemma mset_sent_without:
  assumes "a < length xs"
  shows "mset (concat (map f (enumerate 0 xs))) - mset (f (a, xs ! a)) =
           (\<Sum>i\<in>{0..<length xs} - {a}. mset (f (i, xs ! i)))"
proof -
  have "(\<Sum>i\<in>{0..<length xs}. mset (f (i, xs ! i))) =
          mset (f (a, xs ! a)) + (\<Sum>i\<in>{0..<length xs} - {a}. mset (f (i, xs ! i)))"
    using assms by (intro sum.remove) auto
  then show ?thesis by (simp add: mset_sent_sum)
qed

lemma coordinator_isolation:
  assumes body: "sends_once body"
      and a: "a < length (Hosts config)"
      and same: "\<forall>j. j \<noteq> a \<longrightarrow> worlds' j = worlds j"
  shows "\<exists>st st'. coordinator body sched worlds config commands = Some st \<and>
           coordinator body sched' worlds' config commands = Some st' \<and>
           mset (commandResults st) - mset (sent body worlds config commands (a, Hosts config ! a)) =
           mset (commandResults st') - mset (sent body worlds' config commands (a, Hosts config ! a)) \<and>
           (\<forall>b<length (Hosts config). b \<noteq> a \<longrightarrow>
              (\<exists>r. sent body worlds config commands (b, Hosts config ! b) = [r] \<and>
                   sent body worlds' config commands (b, Hosts config ! b) = [r] \<and>
                   r \<in> set (commandResults st) \<and> r \<in> set (commandResults st')))"
proof -
  let ?f = "sent body worlds config commands" and ?f' = "sent body worlds' config commands"
  obtain st where st: "coordinator body sched worlds config commands = Some st"
    and m: "mset (commandResults st) = mset (concat (map ?f (enumerate 0 (Hosts config))))"
    using coordinator_results[OF body] by blast
  obtain st' where st': "coordinator body sched' worlds' config commands = Some st'"
    and m': "mset (commandResults st') = mset (concat (map ?f' (enumerate 0 (Hosts config))))"
    using coordinator_results[OF body] by blast
  have eq: "?f (j, h) = ?f' (j, h)" if "j \<noteq> a" for j h
    using same that by (simp add: sent_def)
  have "(\<Sum>i\<in>{0..<length (Hosts config)} - {a}. mset (?f (i, Hosts config ! i))) =
        (\<Sum>i\<in>{0..<length (Hosts config)} - {a}. mset (?f' (i, Hosts config ! i)))"
    by (rule sum.cong) (auto simp: eq)
  then have rest: "mset (commandResults st) - mset (?f (a, Hosts config ! a)) =
      mset (commandResults st') - mset (?f' (a, Hosts config ! a))"
    unfolding m m' mset_sent_without[OF a] .
  have others: "\<exists>r. ?f (b, Hosts config ! b) = [r] \<and> ?f' (b, Hosts config ! b) = [r] \<and>
                   r \<in> set (commandResults st) \<and> r \<in> set (commandResults st')"
    if b: "b < length (Hosts config)" and ne: "b \<noteq> a" for b
  proof -
    obtain r where r: "?f (b, Hosts config ! b) = [r]"
      using sent_single[OF body] by blast
    then have r': "?f' (b, Hosts config ! b) = [r]"
      using eq[OF ne] by simp
    have "r \<in># mset (commandResults st)"
      unfolding m by (rule sent_in_results[OF b r])
    moreover have "r \<in># mset (commandResults st')"
      unfolding m' by (rule sent_in_results[OF b r'])
    ultimately show ?thesis using r r' by auto
  qed
  from st st' rest others show ?thesis by blast
qed

subsection \<open>The authentication method of the dial\<close>

lemma dial_auths_append: "dial_auths (xs @ ys) = dial_auths xs @ dial_auths ys"
  by (induction xs rule: dial_auths.induct) simp_all

lemma dial_auths_select: "dial_auths (fst (select_authMethod w config)) = []"
  by (simp add: select_authMethod_def split: sum.splits)

lemma dial_auths_executeCommand: "dial_auths (fst (executeCommand w client cmd)) = []"
  by (simp add: executeCommand_def Let_def split: option.splits)

lemma dial_auths_run_commands_v2:
  "dial_auths (fst (run_commands_v2 w client trace combinedOutput cmds)) = dial_auths trace"
proof (induction cmds arbitrary: client trace combinedOutput)
  case Nil
  then show ?case by simp
next
  case (Cons cmd cmds)
  obtain cs res client' where ex: "executeCommand w client cmd = (cs, res, client')"
    by (cases "executeCommand w client cmd") auto
  have "dial_auths cs = []"
    using dial_auths_executeCommand[of w client cmd] ex by simp
  then show ?case
    using ex Cons by (cases res) (simp_all add: dial_auths_append)
qed

lemma dial_auths_run_commands_v1:
  "dial_auths (fst (run_commands_v1 w client hostResult trace combinedOutput cmds)) = dial_auths trace"
  by (induction cmds arbitrary: client trace combinedOutput)
     (simp_all add: Let_def dial_auths_append split: option.splits)

lemma dial_auths_goroutine_v1:
  "dial_auths (fst (goroutine_v1 w config commands h)) =
     (case snd (select_authMethod w config) of Inl err \<Rightarrow> [] | Inr authMethod \<Rightarrow> [[authMethod]])"
proof (cases "select_authMethod w config")
  case (Pair cs res)
  have cs: "dial_auths cs = []"
    using dial_auths_select[of w config] Pair by simp
  show ?thesis
  proof (cases res)
    case (Inl err)
    with Pair cs show ?thesis by (simp add: goroutine_v1_def)
  next
    case (Inr authMethod)
    let ?cc = "make_clientConfig config authMethod"
    let ?tr = "cs @ [Call_Dial ''tcp'' (make_addr config h) ?cc]"
    have auth: "cc_Auth ?cc = [authMethod]"
      by (simp add: make_clientConfig_def)
    show ?thesis
    proof (cases "ssh_Dial w ''tcp'' (make_addr config h) ?cc")
      case None
      obtain tr sends where run: "run_commands_v1 w (Client (make_addr config h) 0)
              \<lparr>Hostname = h, Output = [], Error = None\<rparr> ?tr [] commands = (tr, sends)"
        by force
      have "dial_auths tr = [[authMethod]]"
        using dial_auths_run_commands_v1[of w "Client (make_addr config h) 0"
            "\<lparr>Hostname = h, Output = [], Error = None\<rparr>" ?tr "[]" commands]
        unfolding run by (simp add: cs auth dial_auths_append)
      with Pair Inr None run show ?thesis
        by (simp add: goroutine_v1_def Let_def dial_auths_append)
    next
      case (Some err)
      with Pair Inr cs auth show ?thesis
        by (simp add: goroutine_v1_def Let_def dial_auths_append)
    qed
  qed
qed

lemma dial_auths_goroutine_v2:
  "dial_auths (fst (goroutine_v2 w config commands h)) =
     (case snd (select_authMethod w config) of Inl err \<Rightarrow> [] | Inr authMethod \<Rightarrow> [[authMethod]])"
proof (cases "select_authMethod w config")
  case (Pair cs res)
  have cs: "dial_auths cs = []"
    using dial_auths_select[of w config] Pair by simp
  show ?thesis
  proof (cases res)
    case (Inl err)
    with Pair cs show ?thesis by (simp add: goroutine_v2_def setupSSHClient_def)
  next
    case (Inr authMethod)
    let ?cc = "make_clientConfig config authMethod"
    let ?tr = "cs @ [Call_Dial ''tcp'' (make_addr config h) ?cc]"
    have auth: "cc_Auth ?cc = [authMethod]"
      by (simp add: make_clientConfig_def)
    show ?thesis
    proof (cases "ssh_Dial w ''tcp'' (make_addr config h) ?cc")
      case None
      obtain tr out where run:
        "run_commands_v2 w (Client (make_addr config h) 0) ?tr [] commands = (tr, out)"
        by force
      have "dial_auths tr = [[authMethod]]"
        using dial_auths_run_commands_v2[of w "Client (make_addr config h) 0" ?tr "[]" commands]
        unfolding run by (simp add: cs auth dial_auths_append)
      with Pair Inr None run show ?thesis
        by (simp add: goroutine_v2_def setupSSHClient_def Let_def dial_auths_append)
    next
      case (Some err)
      with Pair Inr cs auth show ?thesis
        by (simp add: goroutine_v2_def setupSSHClient_def Let_def dial_auths_append)
    qed
  qed
qed

subsection \<open>The result of \<open>session.Wait()\<close> is not used\<close>

lemma select_authMethod_Wait:
  "select_authMethod (w\<lparr>session_Wait := wt\<rparr>) config = select_authMethod w config"
  by (simp add: select_authMethod_def split: sum.splits)

lemma executeCommand_Wait:
  "executeCommand (w\<lparr>session_Wait := wt\<rparr>) client cmd = executeCommand w client cmd"
  by (simp add: executeCommand_def Let_def split: option.splits)

lemma run_commands_v2_Wait:
  "run_commands_v2 (w\<lparr>session_Wait := wt\<rparr>) client trace combinedOutput cmds =
     run_commands_v2 w client trace combinedOutput cmds"
proof (induction cmds arbitrary: client trace combinedOutput)
  case Nil
  then show ?case by simp
next
  case (Cons cmd cmds)
  then show ?case by (simp add: executeCommand_Wait split: prod.splits sum.splits)
qed

lemma run_commands_v1_Wait:
  "run_commands_v1 (w\<lparr>session_Wait := wt\<rparr>) client hostResult trace combinedOutput cmds =
     run_commands_v1 w client hostResult trace combinedOutput cmds"
  by (induction cmds arbitrary: client trace combinedOutput)
     (simp_all add: Let_def split: option.splits)

lemma goroutine_v1_Wait:
  "goroutine_v1 (w\<lparr>session_Wait := wt\<rparr>) config commands h = goroutine_v1 w config commands h"
  by (simp add: goroutine_v1_def Let_def select_authMethod_Wait run_commands_v1_Wait
      split: prod.splits sum.splits option.splits)

lemma goroutine_v2_Wait:
  "goroutine_v2 (w\<lparr>session_Wait := wt\<rparr>) config commands h = goroutine_v2 w config commands h"
  by (simp add: goroutine_v2_def setupSSHClient_def Let_def select_authMethod_Wait
      run_commands_v2_Wait
      split: prod.splits sum.splits option.splits)

subsection \<open>Where the two versions agree\<close>

lemma length_Sprintf_failed: "length (Sprintf_failed cmd err) = length cmd + length err + 20"
  by (simp add: Sprintf_failed_def)

lemma length_entries:
  assumes "session_ok w k"
  shows "length (entry_v2 w k cmd) =
           length (entry_v1 w k cmd) + (if session_Start w k cmd = None then 0 else 15)"
  using assms
  by (cases "session_Start w k cmd")
     (simp_all add: entry_v2_eq entry_v1_def session_ok_def length_Sprintf_failed)

lemma length_blobs:
  "all_sessions_ok w k cmds \<Longrightarrow>
   length (blob (entry_v1 w) k cmds) \<le> length (blob (entry_v2 w) k cmds) \<and>
   (\<not> no_command_failure w k cmds \<longrightarrow>
      length (blob (entry_v1 w) k cmds) < length (blob (entry_v2 w) k cmds))"
proof (induction cmds arbitrary: k)
  case Nil
  then show ?case by (simp add: blob_Nil no_command_failure_Nil)
next
  case (Cons cmd cmds)
  then have ok: "session_ok w k" and rest: "all_sessions_ok w (Suc k) cmds"
    by (simp_all add: all_sessions_ok_Cons)
  from Cons.IH[OF rest] length_entries[OF ok, of cmd] ok show ?case
    by (auto simp: blob_Cons no_command_failure_Cons split: if_splits)
qed

lemma goroutines_agree_iff:
  "snd (goroutine_v1 w config commands h) = snd (goroutine_v2 w config commands h) \<longleftrightarrow>
     agreeing_behaviour w config commands h"
proof (cases "select_authMethod w config")
  case (Pair cs res)
  show ?thesis
  proof (cases res)
    case (Inl err)
    have "err \<noteq> ''dial '' @ h @ '': '' @ err"
    proof
      assume "err = ''dial '' @ h @ '': '' @ err"
      then have "length err = length (''dial '' @ h @ '': '' @ err)" by (rule arg_cong)
      then show False by simp
    qed
    with Pair Inl show ?thesis
      by (simp add: goroutine_v1_def goroutine_v2_def setupSSHClient_def agreeing_behaviour_def)
  next
    case (Inr authMethod)
    let ?dial = "ssh_Dial w ''tcp'' (make_addr config h) (make_clientConfig config authMethod)"
    show ?thesis
    proof (cases ?dial)
      case (Some err)
      with Pair Inr show ?thesis
        by (simp add: goroutine_v1_def goroutine_v2_def setupSSHClient_def agreeing_behaviour_def
            Let_def)
    next
      case None
      have conn: "\<not> host_level_failure w config h"
        using Pair Inr None by (simp add: host_level_failure_def)
      have agree: "agreeing_behaviour w config commands h = no_command_failure w 0 commands"
        using Pair Inr None by (simp add: agreeing_behaviour_def)
      note v2 = goroutine_v2_connected[OF conn, of commands]
      show ?thesis
      proof (cases "all_sessions_ok w 0 commands")
        case False
        then have "\<not> no_command_failure w 0 commands"
          using no_command_failure_sessions by blast
        moreover obtain err where
          "snd (goroutine_v1 w config commands h) = [\<lparr>Hostname = h, Output = [], Error = Some err\<rparr>]"
          using goroutine_v1_connected_abort[OF conn False] by blast
        ultimately show ?thesis using v2 agree by simp
      next
        case True
        note v1 = goroutine_v1_connected_ok[OF conn True]
        show ?thesis
        proof (cases "no_command_failure w 0 commands")
          case ok: True
          then show ?thesis
            using v1 v2 agree by (simp add: blob_v1_outputs blob_v2_outputs)
        next
          case bad: False
          then have "length (blob (entry_v1 w) 0 commands) < length (blob (entry_v2 w) 0 commands)"
            using length_blobs[OF True] by blast
          then have "blob (entry_v1 w) 0 commands \<noteq> blob (entry_v2 w) 0 commands"
            by auto
          then show ?thesis using v1 v2 agree bad by simp
        qed
      qed
    qed
  qed
qed

lemma sent_agree:
  assumes "\<forall>i<length hosts. agreeing_behaviour (worlds i) config commands (hosts ! i)"
  shows "map (sent goroutine_v1 worlds config commands) (enumerate 0 hosts) =
         map (sent goroutine_v2 worlds config commands) (enumerate 0 hosts)"
proof (rule map_cong[OF refl])
  fix g assume "g \<in> set (enumerate 0 hosts)"
  then have "fst g < length hosts" "snd g = hosts ! fst g"
    by (simp_all add: in_set_enumerate_eq)
  with assms have "agreeing_behaviour (worlds (fst g)) config commands (snd g)"
    by simp
  then show "sent goroutine_v1 worlds config commands g = sent goroutine_v2 worlds config commands g"
    by (simp add: sent_def goroutines_agree_iff)
qed

subsection \<open>Which commands are attempted\<close>





lemma all_sessions_ok_nth:
  "all_sessions_ok w k cmds \<longleftrightarrow> (\<forall>j<length cmds. session_ok w (k + j))"
  by (simp add: all_sessions_ok_def list_all_length nth_enumerate_eq)






section \<open>Claims\<close>

text \<open>
  C1.  For every host list of size N (N = 0 included), every command list, every schedule of
  the goroutines and every outcome of the calls made for the hosts, both versions of
  \<open>ExecuteRemoteCommands\<close> return, and return exactly N results whose hostnames are the
  input hosts, each as often as it occurs in the input; with no hosts the result is empty.
  (Every call made for a host returns, with a value or an error: see the data model.)
\<close>

theorem execute_returns_one_result_per_host:
  "(\<exists>st. ExecuteRemoteCommands_v1 sched worlds config commands = Some st \<and>
         length (commandResults st) = length (Hosts config) \<and>
         mset (map Hostname (commandResults st)) = mset (Hosts config)) \<and>
   (\<exists>st. ExecuteRemoteCommands_v2 sched worlds config commands = Some st \<and>
         length (commandResults st) = length (Hosts config) \<and>
         mset (map Hostname (commandResults st)) = mset (Hosts config))"
  unfolding ExecuteRemoteCommands_v1_def ExecuteRemoteCommands_v2_def
  using coordinator_hostnames[OF goroutine_v1_sends_once]
        coordinator_hostnames[OF goroutine_v2_sends_once]
  by blast

theorem execute_returns_one_result_per_host_witness:
  "(\<exists>st. ExecuteRemoteCommands_v1 [1] (\<lambda>i. demo_world) (demo_config\<lparr>Hosts := []\<rparr>) [''uptime''] = Some st \<and>
         commandResults st = []) \<and>
   (\<exists>st. ExecuteRemoteCommands_v2 [1] (\<lambda>i. demo_world) demo_config [''uptime''] = Some st \<and>
         length (commandResults st) = 2)"
  using execute_returns_one_result_per_host
          [of "[1]" "\<lambda>i. demo_world" "demo_config\<lparr>Hosts := []\<rparr>" "[''uptime'']"]
        execute_returns_one_result_per_host
          [of "[1]" "\<lambda>i. demo_world" demo_config "[''uptime'']"]
  by (auto simp: demo_config_def)

text \<open>
  C2.  When the host at position \<open>i\<close> cannot be connected (no usable credential is
  configured, the key cannot be read or parsed, or \<open>ssh.Dial\<close> fails to connect or
  authenticate; stated on the configuration and the library's answers), the result its
  goroutine sends has the terminal error set and an empty output, the goroutine makes no
  call on any session (no command is attempted), and the run still returns one result per
  host: every host's goroutine sends one result and that result is returned.  Both
  versions.
\<close>

theorem host_level_failure_sets_terminal_error:
  assumes "i < length (Hosts config)"
      and "cannot_connect (worlds i) config (Hosts config ! i)"
  shows "(\<exists>st cs r. ExecuteRemoteCommands_v1 sched worlds config commands = Some st \<and>
            goroutine_v1 (worlds i) config commands (Hosts config ! i) = (cs, [r]) \<and>
            r \<in> set (commandResults st) \<and>
            Hostname r = Hosts config ! i \<and> Error r \<noteq> None \<and> Output r = [] \<and>
            list_all (\<lambda>c. \<not> is_command_call c) cs \<and>
            length (commandResults st) = length (Hosts config) \<and>
            (\<forall>j<length (Hosts config).
               \<exists>r'. sent goroutine_v1 worlds config commands (j, Hosts config ! j) = [r'] \<and>
                    r' \<in> set (commandResults st))) \<and>
         (\<exists>st cs r. ExecuteRemoteCommands_v2 sched worlds config commands = Some st \<and>
            goroutine_v2 (worlds i) config commands (Hosts config ! i) = (cs, [r]) \<and>
            r \<in> set (commandResults st) \<and>
            Hostname r = Hosts config ! i \<and> Error r \<noteq> None \<and> Output r = [] \<and>
            list_all (\<lambda>c. \<not> is_command_call c) cs \<and>
            length (commandResults st) = length (Hosts config) \<and>
            (\<forall>j<length (Hosts config).
               \<exists>r'. sent goroutine_v2 worlds config commands (j, Hosts config ! j) = [r'] \<and>
                    r' \<in> set (commandResults st)))"
proof -
  have hlf: "host_level_failure (worlds i) config (Hosts config ! i)"
    using assms(2) by (simp add: cannot_connect_iff)
  note v1 = host_failure_result[where body = goroutine_v1 and config = config
      and commands = commands and worlds = worlds and i = i and sched = sched,
      OF goroutine_v1_sends_once goroutine_v1_failure assms(1) hlf]
  note v2 = host_failure_result[where body = goroutine_v2 and config = config
      and commands = commands and worlds = worlds and i = i and sched = sched,
      OF goroutine_v2_sends_once goroutine_v2_failure assms(1) hlf]
  show ?thesis
    unfolding ExecuteRemoteCommands_v1_def ExecuteRemoteCommands_v2_def
    using v1 v2 by (rule conjI)
qed

theorem host_level_failure_sets_terminal_error_witness:
  "cannot_connect dial_fail_world demo_config ''h1'' \<and>
   (\<exists>st r. ExecuteRemoteCommands_v1 [1] (\<lambda>i. if i = 0 then dial_fail_world else demo_world)
               demo_config [''uptime''] = Some st \<and>
      r \<in> set (commandResults st) \<and> Hostname r = ''h1'' \<and> Error r \<noteq> None \<and> Output r = [] \<and>
      length (commandResults st) = 2) \<and>
   (\<exists>st r. ExecuteRemoteCommands_v2 [1] (\<lambda>i. if i = 0 then dial_fail_world else demo_world)
               demo_config [''uptime''] = Some st \<and>
      r \<in> set (commandResults st) \<and> Hostname r = ''h1'' \<and> Error r \<noteq> None \<and> Output r = [] \<and>
      length (commandResults st) = 2) \<and>
   cannot_connect key_fail_world demo_config ''h2'' \<and>
   (\<exists>st r. ExecuteRemoteCommands_v1 [0] (\<lambda>i. if i = 1 then key_fail_world else demo_world)
               demo_config [''uptime''] = Some st \<and>
      r \<in> set (commandResults st) \<and> Hostname r = ''h2'' \<and> Error r \<noteq> None \<and> Output r = []) \<and>
   (\<exists>st r. ExecuteRemoteCommands_v2 [0] (\<lambda>i. if i = 1 then key_fail_world else demo_world)
               demo_config [''uptime''] = Some st \<and>
      r \<in> set (commandResults st) \<and> Hostname r = ''h2'' \<and> Error r \<noteq> None \<and> Output r = []) \<and>
   cannot_connect demo_world no_auth_config ''h1'' \<and>
   (\<exists>st r. ExecuteRemoteCommands_v1 [] (\<lambda>i. demo_world) no_auth_config [''uptime''] = Some st \<and>
      r \<in> set (commandResults st) \<and> Hostname r = ''h1'' \<and> Error r \<noteq> None \<and> Output r = []) \<and>
   (\<exists>st r. ExecuteRemoteCommands_v2 [] (\<lambda>i. demo_world) no_auth_config [''uptime''] = Some st \<and>
      r \<in> set (commandResults st) \<and> Hostname r = ''h1'' \<and> Error r \<noteq> None \<and> Output r = [])"
proof -
  have l: "(0::nat) < length (Hosts demo_config)" "(1::nat) < length (Hosts demo_config)"
    "(0::nat) < length (Hosts no_auth_config)"
    by (simp_all add: demo_config_def no_auth_config_def)
  have names: "Hosts demo_config ! 0 = ''h1''" "Hosts demo_config ! 1 = ''h2''"
    "Hosts no_auth_config ! 0 = ''h1''" "length (Hosts demo_config) = 2"
    by (simp_all add: demo_config_def no_auth_config_def)
  have d: "cannot_connect dial_fail_world demo_config ''h1''"
    by (simp add: cannot_connect_def Let_def demo_config_def demo_world_def
        dial_fail_world_def)
  have k: "cannot_connect key_fail_world demo_config ''h2''"
    by (simp add: cannot_connect_def Let_def demo_config_def demo_world_def
        key_fail_world_def)
  have n: "cannot_connect demo_world no_auth_config ''h1''"
    by (simp add: cannot_connect_def Let_def demo_config_def demo_world_def
        no_auth_config_def)
  have d': "cannot_connect (if (0::nat) = 0 then dial_fail_world else demo_world) demo_config
              (Hosts demo_config ! 0)"
    using d by (simp add: names)
  have k': "cannot_connect (if (1::nat) = 1 then key_fail_world else demo_world) demo_config
              (Hosts demo_config ! 1)"
    using k by (simp add: demo_config_def)
  have n': "cannot_connect demo_world no_auth_config (Hosts no_auth_config ! 0)"
    using n by (simp add: names)
  note i1 = host_level_failure_sets_terminal_error
    [where i = 0 and config = demo_config and sched = "[1]" and commands = "[''uptime'']"
       and worlds = "\<lambda>i. if i = 0 then dial_fail_world else demo_world", OF l(1) d']
  note i2 = host_level_failure_sets_terminal_error
    [where i = 1 and config = demo_config and sched = "[0]" and commands = "[''uptime'']"
       and worlds = "\<lambda>i. if i = 1 then key_fail_world else demo_world", OF l(2) k']
  note i3 = host_level_failure_sets_terminal_error
    [where i = 0 and config = no_auth_config and sched = "[]" and commands = "[''uptime'']"
       and worlds = "\<lambda>i. demo_world", OF l(3) n']
  have a1: "(\<exists>st r. ExecuteRemoteCommands_v1 [1] (\<lambda>i. if i = 0 then dial_fail_world else demo_world)
               demo_config [''uptime''] = Some st \<and>
      r \<in> set (commandResults st) \<and> Hostname r = ''h1'' \<and> Error r \<noteq> None \<and> Output r = [] \<and>
      length (commandResults st) = 2)"
    using i1[THEN conjunct1] unfolding names by blast
  have a2: "(\<exists>st r. ExecuteRemoteCommands_v2 [1] (\<lambda>i. if i = 0 then dial_fail_world else demo_world)
               demo_config [''uptime''] = Some st \<and>
      r \<in> set (commandResults st) \<and> Hostname r = ''h1'' \<and> Error r \<noteq> None \<and> Output r = [] \<and>
      length (commandResults st) = 2)"
    using i1[THEN conjunct2] unfolding names by blast
  have b1: "(\<exists>st r. ExecuteRemoteCommands_v1 [0] (\<lambda>i. if i = 1 then key_fail_world else demo_world)
               demo_config [''uptime''] = Some st \<and>
      r \<in> set (commandResults st) \<and> Hostname r = ''h2'' \<and> Error r \<noteq> None \<and> Output r = [])"
    using i2[THEN conjunct1] unfolding names by blast
  have b2: "(\<exists>st r. ExecuteRemoteCommands_v2 [0] (\<lambda>i. if i = 1 then key_fail_world else demo_world)
               demo_config [''uptime''] = Some st \<and>
      r \<in> set (commandResults st) \<and> Hostname r = ''h2'' \<and> Error r \<noteq> None \<and> Output r = [])"
    using i2[THEN conjunct2] unfolding names by blast
  have c1: "(\<exists>st r. ExecuteRemoteCommands_v1 [] (\<lambda>i. demo_world) no_auth_config [''uptime''] = Some st \<and>
      r \<in> set (commandResults st) \<and> Hostname r = ''h1'' \<and> Error r \<noteq> None \<and> Output r = [])"
    using i3[THEN conjunct1] unfolding names by blast
  have c2: "(\<exists>st r. ExecuteRemoteCommands_v2 [] (\<lambda>i. demo_world) no_auth_config [''uptime''] = Some st \<and>
      r \<in> set (commandResults st) \<and> Hostname r = ''h1'' \<and> Error r \<noteq> None \<and> Output r = [])"
    using i3[THEN conjunct2] unfolding names by blast
  from d a1 a2 k b1 b2 n c1 c2 show ?thesis by (intro conjI)
qed




text \<open>
  C4 (as amended).  The result of \<open>session.Wait()\<close> is discarded by both versions: what a
  goroutine calls and sends does not depend on it.  On a connected host there is one entry
  per command, and the entry of every command that starts (its session and pipe are
  created, \<open>Start\<close> returns no error) is the normal labelled output of the bytes read from
  it, whatever its exit status: a command that exits abnormally gets no failure note.  In
  the refactored version the output is always the concatenation of these entries.  In the
  inline version it is so exactly when the session and the pipe of every command of the
  host are created; otherwise the terminal error is set and the output is empty, also for
  the commands that started.
\<close>

theorem started_command_recorded_as_output:
  "goroutine_v1 (w\<lparr>session_Wait := wt\<rparr>) config commands h = goroutine_v1 w config commands h \<and>
   goroutine_v2 (w\<lparr>session_Wait := wt\<rparr>) config commands h = goroutine_v2 w config commands h \<and>
   (\<not> cannot_connect w config h \<longrightarrow>
      (\<exists>r entries. snd (goroutine_v1 w config commands h) = [r] \<and>
         length entries = length commands \<and>
         (\<forall>k<length commands.
            session_ok w k \<and> session_Start w k (commands ! k) = None \<longrightarrow>
            entries ! k = Sprintf_output (commands ! k) (fst (io_ReadAll w k (commands ! k)))) \<and>
         ((\<forall>k<length commands. session_ok w k) \<longrightarrow>
            Error r = None \<and> Output r = concat entries) \<and>
         (\<not> (\<forall>k<length commands. session_ok w k) \<longrightarrow>
            Error r \<noteq> None \<and> Output r = [])) \<and>
      (\<exists>r entries. snd (goroutine_v2 w config commands h) = [r] \<and> Error r = None \<and>
         Output r = concat entries \<and> length entries = length commands \<and>
         (\<forall>k<length commands.
            session_ok w k \<and> session_Start w k (commands ! k) = None \<longrightarrow>
            entries ! k = Sprintf_output (commands ! k) (fst (io_ReadAll w k (commands ! k))))))"
proof (intro conjI impI)
  show "goroutine_v1 (w\<lparr>session_Wait := wt\<rparr>) config commands h = goroutine_v1 w config commands h"
    by (rule goroutine_v1_Wait)
  show "goroutine_v2 (w\<lparr>session_Wait := wt\<rparr>) config commands h = goroutine_v2 w config commands h"
    by (rule goroutine_v2_Wait)
next
  assume "\<not> cannot_connect w config h"
  then have conn: "\<not> host_level_failure w config h"
    by (simp add: cannot_connect_iff)
  let ?es = "map (\<lambda>(k, cmd). entry_v1 w k cmd) (enumerate 0 commands)"
  obtain r where r: "snd (goroutine_v1 w config commands h) = [r]"
    using goroutine_v1_sends_once unfolding sends_once_def by blast
  have all: "all_sessions_ok w 0 commands \<longleftrightarrow> (\<forall>k<length commands. session_ok w k)"
    by (simp add: all_sessions_ok_nth)
  have ok: "Error r = None \<and> Output r = concat ?es" if "\<forall>k<length commands. session_ok w k"
  proof -
    from that all have "all_sessions_ok w 0 commands" by simp
    from goroutine_v1_connected_ok[OF conn this] r show ?thesis by (auto simp: blob_def)
  qed
  have abort: "Error r \<noteq> None \<and> Output r = []" if "\<not> (\<forall>k<length commands. session_ok w k)"
  proof -
    from that all have "\<not> all_sessions_ok w 0 commands" by simp
    from goroutine_v1_connected_abort[OF conn this] r show ?thesis by auto
  qed
  have nth: "?es ! k = Sprintf_output (commands ! k) (fst (io_ReadAll w k (commands ! k)))"
    if "k < length commands" "session_ok w k \<and> session_Start w k (commands ! k) = None" for k
    using that by (simp add: nth_enumerate_eq started_entries(1))
  have len: "length ?es = length commands" by simp
  show "\<exists>r entries. snd (goroutine_v1 w config commands h) = [r] \<and>
         length entries = length commands \<and>
         (\<forall>k<length commands.
            session_ok w k \<and> session_Start w k (commands ! k) = None \<longrightarrow>
            entries ! k = Sprintf_output (commands ! k) (fst (io_ReadAll w k (commands ! k)))) \<and>
         ((\<forall>k<length commands. session_ok w k) \<longrightarrow>
            Error r = None \<and> Output r = concat entries) \<and>
         (\<not> (\<forall>k<length commands. session_ok w k) \<longrightarrow>
            Error r \<noteq> None \<and> Output r = [])"
  proof (rule exI[of _ r], rule exI[of _ ?es], intro conjI)
    show "snd (goroutine_v1 w config commands h) = [r]" by (rule r)
    show "length ?es = length commands" by (rule len)
    show "\<forall>k<length commands.
            session_ok w k \<and> session_Start w k (commands ! k) = None \<longrightarrow>
            ?es ! k = Sprintf_output (commands ! k) (fst (io_ReadAll w k (commands ! k)))"
    proof (intro allI impI)
      fix k assume "k < length commands"
        "session_ok w k \<and> session_Start w k (commands ! k) = None"
      then show "?es ! k = Sprintf_output (commands ! k) (fst (io_ReadAll w k (commands ! k)))"
        by (rule nth)
    qed
    show "(\<forall>k<length commands. session_ok w k) \<longrightarrow> Error r = None \<and> Output r = concat ?es"
      using ok by (rule impI)
    show "\<not> (\<forall>k<length commands. session_ok w k) \<longrightarrow> Error r \<noteq> None \<and> Output r = []"
      using abort by (rule impI)
  qed
next
  assume "\<not> cannot_connect w config h"
  then have conn: "\<not> host_level_failure w config h"
    by (simp add: cannot_connect_iff)
  let ?es = "map (\<lambda>(k, cmd). entry_v2 w k cmd) (enumerate 0 commands)"
  let ?r = "\<lparr>Hostname = h, Output = blob (entry_v2 w) 0 commands, Error = None\<rparr>"
  have r: "snd (goroutine_v2 w config commands h) = [?r]"
    by (rule goroutine_v2_connected[OF conn])
  have nth: "?es ! k = Sprintf_output (commands ! k) (fst (io_ReadAll w k (commands ! k)))"
    if "k < length commands" "session_ok w k \<and> session_Start w k (commands ! k) = None" for k
    using that by (simp add: nth_enumerate_eq started_entries(2))
  have len: "length ?es = length commands" by simp
  show "\<exists>r entries. snd (goroutine_v2 w config commands h) = [r] \<and> Error r = None \<and>
         Output r = concat entries \<and> length entries = length commands \<and>
         (\<forall>k<length commands.
            session_ok w k \<and> session_Start w k (commands ! k) = None \<longrightarrow>
            entries ! k = Sprintf_output (commands ! k) (fst (io_ReadAll w k (commands ! k))))"
  proof (rule exI[of _ ?r], rule exI[of _ ?es], intro conjI impI allI)
    show "snd (goroutine_v2 w config commands h) = [?r]" by (rule r)
    show "Error ?r = None" by simp
    show "Output ?r = concat ?es" by (simp add: blob_def)
    show "length ?es = length commands" by (rule len)
    show "?es ! k = Sprintf_output (commands ! k) (fst (io_ReadAll w k (commands ! k)))"
      if "k < length commands" "session_ok w k \<and> session_Start w k (commands ! k) = None" for k
      by (rule nth[OF that])
  qed
qed

theorem started_command_recorded_as_output_witness:
  "\<not> cannot_connect wait_fail_world demo_config ''h1'' \<and>
   session_ok wait_fail_world 0 \<and> session_Start wait_fail_world 0 ''false'' = None \<and>
   session_Wait wait_fail_world 0 ''false'' = Some ''Process exited with status 1'' \<and>
   (\<exists>r. snd (goroutine_v1 wait_fail_world demo_config [''false''] ''h1'') = [r] \<and>
        Error r = None \<and> Output r = Sprintf_output ''false'' []) \<and>
   (\<exists>r. snd (goroutine_v2 wait_fail_world demo_config [''false''] ''h1'') = [r] \<and>
        Error r = None \<and> Output r = Sprintf_output ''false'' []) \<and>
   \<not> cannot_connect session_fail_world demo_config ''h1'' \<and>
   session_ok session_fail_world 0 \<and> session_Start session_fail_world 0 ''uname -a'' = None \<and>
   \<not> session_ok session_fail_world 1 \<and>
   (\<exists>r. snd (goroutine_v1 session_fail_world demo_config [''uname -a'', ''df -h''] ''h1'') = [r] \<and>
        Error r \<noteq> None \<and> Output r = [])"
proof -
  have h: "\<not> cannot_connect wait_fail_world demo_config ''h1''"
    by (simp add: cannot_connect_def Let_def demo_config_def demo_world_def wait_fail_world_def)
  have s: "session_ok wait_fail_world 0 \<and> session_Start wait_fail_world 0 ''false'' = None"
    by (simp add: wait_fail_world_def demo_world_def session_ok_def)
  have w: "session_Wait wait_fail_world 0 ''false'' = Some ''Process exited with status 1''"
    by (simp add: wait_fail_world_def)
  have b: "fst (io_ReadAll wait_fail_world 0 ''false'') = []"
    by (simp add: wait_fail_world_def)
  have h': "\<not> cannot_connect session_fail_world demo_config ''h1''"
    by (simp add: cannot_connect_def Let_def demo_config_def demo_world_def session_fail_world_def)
  have s': "session_ok session_fail_world 0 \<and> session_Start session_fail_world 0 ''uname -a'' = None"
    by (simp add: session_fail_world_def demo_world_def session_ok_def)
  have bad: "\<not> session_ok session_fail_world 1"
    by (simp add: session_fail_world_def demo_world_def session_ok_def)
  note inst = started_command_recorded_as_output[where w = wait_fail_world and config = demo_config
      and commands = "[''false'']" and h = "''h1''",
      THEN conjunct2, THEN conjunct2, rule_format, OF h]
  note inst' = started_command_recorded_as_output[where w = session_fail_world
      and config = demo_config and commands = "[''uname -a'', ''df -h'']" and h = "''h1''",
      THEN conjunct2, THEN conjunct2, rule_format, OF h', THEN conjunct1]
  have v1: "\<exists>r. snd (goroutine_v1 wait_fail_world demo_config [''false''] ''h1'') = [r] \<and>
        Error r = None \<and> Output r = Sprintf_output ''false'' []"
  proof -
    from inst[THEN conjunct1]
    obtain r entries where r: "snd (goroutine_v1 wait_fail_world demo_config [''false''] ''h1'') = [r]"
      and len: "length entries = length [''false'']"
      and nth: "\<forall>k<length [''false''].
            session_ok wait_fail_world k \<and> session_Start wait_fail_world k ([''false''] ! k) = None \<longrightarrow>
            entries ! k =
              Sprintf_output ([''false''] ! k) (fst (io_ReadAll wait_fail_world k ([''false''] ! k)))"
      and ok: "(\<forall>k<length [''false'']. session_ok wait_fail_world k) \<longrightarrow>
            Error r = None \<and> Output r = concat entries"
      by (elim exE conjE)
    from s have "\<forall>k<length [''false'']. session_ok wait_fail_world k" by simp
    with ok have e: "Error r = None" and out: "Output r = concat entries" by simp_all
    from len obtain e0 where e0: "entries = [e0]"
      by (cases entries) auto
    from nth s b have "entries ! 0 = Sprintf_output ''false'' []"
      by simp
    with e0 out have "Output r = Sprintf_output ''false'' []"
      by simp
    with r e show ?thesis by blast
  qed
  have v2: "\<exists>r. snd (goroutine_v2 wait_fail_world demo_config [''false''] ''h1'') = [r] \<and>
        Error r = None \<and> Output r = Sprintf_output ''false'' []"
  proof -
    from inst[THEN conjunct2]
    obtain r entries where r: "snd (goroutine_v2 wait_fail_world demo_config [''false''] ''h1'') = [r]"
      and e: "Error r = None" and out: "Output r = concat entries"
      and len: "length entries = length [''false'']"
      and nth: "\<forall>k<length [''false''].
            session_ok wait_fail_world k \<and> session_Start wait_fail_world k ([''false''] ! k) = None \<longrightarrow>
            entries ! k =
              Sprintf_output ([''false''] ! k) (fst (io_ReadAll wait_fail_world k ([''false''] ! k)))"
      by (elim exE conjE)
    from len obtain e0 where e0: "entries = [e0]"
      by (cases entries) auto
    from nth s b have "entries ! 0 = Sprintf_output ''false'' []"
      by simp
    with e0 out have "Output r = Sprintf_output ''false'' []"
      by simp
    with r e show ?thesis by blast
  qed
  have v1': "\<exists>r. snd (goroutine_v1 session_fail_world demo_config [''uname -a'', ''df -h''] ''h1'') = [r] \<and>
        Error r \<noteq> None \<and> Output r = []"
  proof -
    from inst'
    obtain r entries where
      r: "snd (goroutine_v1 session_fail_world demo_config [''uname -a'', ''df -h''] ''h1'') = [r]"
      and abort: "\<not> (\<forall>k<length [''uname -a'', ''df -h'']. session_ok session_fail_world k) \<longrightarrow>
            Error r \<noteq> None \<and> Output r = []"
      by (elim exE conjE)
    have "\<not> (\<forall>k<length [''uname -a'', ''df -h'']. session_ok session_fail_world k)"
    proof
      assume "\<forall>k<length [''uname -a'', ''df -h'']. session_ok session_fail_world k"
      then have "session_ok session_fail_world 1" by simp
      with bad show False by simp
    qed
    with abort have "Error r \<noteq> None \<and> Output r = []" by simp
    with r show ?thesis by blast
  qed
  from h s[THEN conjunct1] s[THEN conjunct2] w v1 v2 h' s'[THEN conjunct1] s'[THEN conjunct2]
    bad v1'
  show ?thesis by (intro conjI)
qed

text \<open>
  C4 as stated fails: the command \<open>false\<close> starts, \<open>session.Wait()\<close> reports its non-zero
  exit status, and both versions record a normal labelled output for it, not a failure note.
\<close>

theorem abnormal_exit_counterexample:
  "session_Start wait_fail_world 0 ''false'' = None \<and>
   session_Wait wait_fail_world 0 ''false'' = Some ''Process exited with status 1'' \<and>
   goroutine_v1 wait_fail_world demo_config [''false''] ''h1'' =
     ([Call_ReadFile ''id_rsa'', Call_ParsePrivateKey ''KEY'',
       Call_Dial ''tcp'' ''h1:22''
         \<lparr>cc_User = ''root'', cc_Auth = [ssh_PublicKeys (Signer ''KEY'')],
          cc_HostKeyCallback = ssh_InsecureIgnoreHostKey, cc_Timeout = 5000000000\<rparr>,
       Call_NewSession 0, Call_StdoutPipe 0, Call_Start 0 ''false'', Call_ReadAll 0, Call_Wait 0,
       Call_SessionClose 0, Call_ClientClose],
      [\<lparr>Hostname = ''h1'', Output = Sprintf_output ''false'' [], Error = None\<rparr>]) \<and>
   snd (goroutine_v2 wait_fail_world demo_config [''false''] ''h1'') =
     [\<lparr>Hostname = ''h1'', Output = Sprintf_output ''false'' [], Error = None\<rparr>] \<and>
   Sprintf_output ''false'' [] \<noteq> Sprintf_failed ''false'' ''Process exited with status 1''"
  by (simp add: eval_defs wait_fail_world_def Sprintf_output_def Sprintf_failed_def)

text \<open>
  C5.  For a host whose connection succeeds, the output of its result is the concatenation,
  in the order of the command list, of one entry per command: the entry of the k-th command
  is the text the loop appends in its k-th iteration (a labelled output or a failure note),
  and every entry starts with the label naming its command.  In the inline version this
  holds when no terminal error is set; with a terminal error the output holds no entry.
\<close>

theorem output_entries_in_command_order:
  assumes "i < length (Hosts config)"
      and "\<not> host_level_failure (worlds i) config (Hosts config ! i)"
  shows "(\<exists>st r. ExecuteRemoteCommands_v1 sched worlds config commands = Some st \<and>
            r \<in> set (commandResults st) \<and>
            snd (goroutine_v1 (worlds i) config commands (Hosts config ! i)) = [r] \<and>
            Output r = (if Error r = None
                        then concat (map (\<lambda>(k, cmd). entry_v1 (worlds i) k cmd) (enumerate 0 commands))
                        else [])) \<and>
         (\<exists>st r. ExecuteRemoteCommands_v2 sched worlds config commands = Some st \<and>
            r \<in> set (commandResults st) \<and>
            snd (goroutine_v2 (worlds i) config commands (Hosts config ! i)) = [r] \<and>
            Error r = None \<and>
            Output r = concat (map (\<lambda>(k, cmd). entry_v2 (worlds i) k cmd) (enumerate 0 commands))) \<and>
         (\<forall>k cmd. \<exists>rest. entry_v1 (worlds i) k cmd = ''Command '' @ [CHR 0x27] @ cmd @ [CHR 0x27] @ rest) \<and>
         (\<forall>k cmd. \<exists>rest. entry_v2 (worlds i) k cmd = ''Command '' @ [CHR 0x27] @ cmd @ [CHR 0x27] @ rest)"
proof (intro conjI)
  let ?h = "Hosts config ! i"
  obtain st r where st: "coordinator goroutine_v1 sched worlds config commands = Some st"
    and r: "sent goroutine_v1 worlds config commands (i, ?h) = [r]"
    and mem: "r \<in> set (commandResults st)"
    using host_result_returned[OF goroutine_v1_sends_once assms(1)] by blast
  have g: "snd (goroutine_v1 (worlds i) config commands ?h) = [r]"
    using r by (simp add: sent_def)
  have "Output r = (if Error r = None then blob (entry_v1 (worlds i)) 0 commands else [])"
  proof (cases "all_sessions_ok (worlds i) 0 commands")
    case True
    from goroutine_v1_connected_ok[OF assms(2) True] g show ?thesis by auto
  next
    case False
    from goroutine_v1_connected_abort[OF assms(2) False] g show ?thesis by auto
  qed
  with st mem g
  show "\<exists>st r. ExecuteRemoteCommands_v1 sched worlds config commands = Some st \<and>
            r \<in> set (commandResults st) \<and>
            snd (goroutine_v1 (worlds i) config commands ?h) = [r] \<and>
            Output r = (if Error r = None
                        then concat (map (\<lambda>(k, cmd). entry_v1 (worlds i) k cmd) (enumerate 0 commands))
                        else [])"
    unfolding ExecuteRemoteCommands_v1_def blob_def by blast
next
  let ?h = "Hosts config ! i"
  obtain st r where st: "coordinator goroutine_v2 sched worlds config commands = Some st"
    and r: "sent goroutine_v2 worlds config commands (i, ?h) = [r]"
    and mem: "r \<in> set (commandResults st)"
    using host_result_returned[OF goroutine_v2_sends_once assms(1)] by blast
  have g: "snd (goroutine_v2 (worlds i) config commands ?h) = [r]"
    using r by (simp add: sent_def)
  have "Error r = None \<and> Output r = blob (entry_v2 (worlds i)) 0 commands"
    using goroutine_v2_connected[OF assms(2), of commands] g by auto
  with st mem g
  show "\<exists>st r. ExecuteRemoteCommands_v2 sched worlds config commands = Some st \<and>
            r \<in> set (commandResults st) \<and>
            snd (goroutine_v2 (worlds i) config commands ?h) = [r] \<and>
            Error r = None \<and>
            Output r = concat (map (\<lambda>(k, cmd). entry_v2 (worlds i) k cmd) (enumerate 0 commands))"
    unfolding ExecuteRemoteCommands_v2_def blob_def by blast
next
  show "\<forall>k cmd. \<exists>rest. entry_v1 (worlds i) k cmd = ''Command '' @ [CHR 0x27] @ cmd @ [CHR 0x27] @ rest"
    using entry_v1_names_command by blast
next
  show "\<forall>k cmd. \<exists>rest. entry_v2 (worlds i) k cmd = ''Command '' @ [CHR 0x27] @ cmd @ [CHR 0x27] @ rest"
    using entry_v2_names_command by blast
qed

theorem output_entries_in_command_order_witness:
  "(0::nat) < length (Hosts demo_config) \<and>
   \<not> host_level_failure start_fail_world demo_config (Hosts demo_config ! 0) \<and>
   (\<exists>st r. ExecuteRemoteCommands_v1 [1] (\<lambda>i. start_fail_world) demo_config
               [''uname -a'', ''df -h'', ''uptime''] = Some st \<and>
      r \<in> set (commandResults st) \<and>
      Output r = Sprintf_output ''uname -a'' ''ok'' @ Sprintf_failed ''df -h'' ''exec failed'' @
                 Sprintf_output ''uptime'' ''ok'') \<and>
   (\<exists>st r. ExecuteRemoteCommands_v2 [1] (\<lambda>i. start_fail_world) demo_config
               [''uname -a'', ''df -h'', ''uptime''] = Some st \<and>
      r \<in> set (commandResults st) \<and>
      Output r = Sprintf_output ''uname -a'' ''ok'' @
                 Sprintf_failed ''df -h'' ''start command: exec failed'' @
                 Sprintf_output ''uptime'' ''ok'')"
proof -
  let ?cmds = "[''uname -a'', ''df -h'', ''uptime'']"
  have h1: "(0::nat) < length (Hosts demo_config)"
    by (simp add: demo_config_def)
  have h2: "\<not> host_level_failure start_fail_world demo_config (Hosts demo_config ! 0)"
    by (simp add: eval_defs start_fail_world_def)
  note inst = output_entries_in_command_order
    [where i = 0 and config = demo_config and sched = "[1]" and commands = ?cmds
       and worlds = "\<lambda>i. start_fail_world", OF h1 h2]
  have e1: "snd (goroutine_v1 start_fail_world demo_config ?cmds (Hosts demo_config ! 0)) = [r] \<Longrightarrow>
              Error r = None" for r
    by (auto simp: eval_defs start_fail_world_def)
  have b1: "concat (map (\<lambda>(k, cmd). entry_v1 start_fail_world k cmd) (enumerate 0 ?cmds)) =
      Sprintf_output ''uname -a'' ''ok'' @ Sprintf_failed ''df -h'' ''exec failed'' @
      Sprintf_output ''uptime'' ''ok''"
    by (simp add: entry_v1_def start_fail_world_def demo_world_def)
  have b2: "concat (map (\<lambda>(k, cmd). entry_v2 start_fail_world k cmd) (enumerate 0 ?cmds)) =
      Sprintf_output ''uname -a'' ''ok'' @ Sprintf_failed ''df -h'' ''start command: exec failed'' @
      Sprintf_output ''uptime'' ''ok''"
    by (simp add: entry_v2_def executeCommand_def start_fail_world_def demo_world_def)
  show ?thesis
    using h1 h2 inst e1 unfolding b1 b2 by (metis (no_types, lifting))
qed

text \<open>
  C6.  Two runs that differ only in the behaviour of the host at position \<open>a\<close> (its dial
  and command outcomes), under any two schedules, return the same results once the result
  of host \<open>a\<close> is taken out of each; every other host's goroutine sends the same result
  in both runs, and that result is returned by both.  Both versions.
\<close>

theorem failure_isolation:
  assumes "a < length (Hosts config)"
      and "\<forall>j. j \<noteq> a \<longrightarrow> worlds' j = worlds j"
  shows "(\<exists>st st'. ExecuteRemoteCommands_v1 sched worlds config commands = Some st \<and>
           ExecuteRemoteCommands_v1 sched' worlds' config commands = Some st' \<and>
           mset (commandResults st) - mset (sent goroutine_v1 worlds config commands (a, Hosts config ! a)) =
           mset (commandResults st') - mset (sent goroutine_v1 worlds' config commands (a, Hosts config ! a)) \<and>
           (\<forall>b<length (Hosts config). b \<noteq> a \<longrightarrow>
              (\<exists>r. sent goroutine_v1 worlds config commands (b, Hosts config ! b) = [r] \<and>
                   sent goroutine_v1 worlds' config commands (b, Hosts config ! b) = [r] \<and>
                   r \<in> set (commandResults st) \<and> r \<in> set (commandResults st')))) \<and>
         (\<exists>st st'. ExecuteRemoteCommands_v2 sched worlds config commands = Some st \<and>
           ExecuteRemoteCommands_v2 sched' worlds' config commands = Some st' \<and>
           mset (commandResults st) - mset (sent goroutine_v2 worlds config commands (a, Hosts config ! a)) =
           mset (commandResults st') - mset (sent goroutine_v2 worlds' config commands (a, Hosts config ! a)) \<and>
           (\<forall>b<length (Hosts config). b \<noteq> a \<longrightarrow>
              (\<exists>r. sent goroutine_v2 worlds config commands (b, Hosts config ! b) = [r] \<and>
                   sent goroutine_v2 worlds' config commands (b, Hosts config ! b) = [r] \<and>
                   r \<in> set (commandResults st) \<and> r \<in> set (commandResults st'))))"
  unfolding ExecuteRemoteCommands_v1_def ExecuteRemoteCommands_v2_def
  using coordinator_isolation[OF goroutine_v1_sends_once assms, of sched commands sched']
        coordinator_isolation[OF goroutine_v2_sends_once assms, of sched commands sched']
  by (rule conjI)

theorem failure_isolation_witness:
  "(\<exists>st st' r. ExecuteRemoteCommands_v1 [1] (\<lambda>i. demo_world) demo_config [''uptime''] = Some st \<and>
      ExecuteRemoteCommands_v1 [0] (\<lambda>i. if i = 0 then dial_fail_world else demo_world)
        demo_config [''uptime''] = Some st' \<and>
      sent goroutine_v1 (\<lambda>i. demo_world) demo_config [''uptime''] (1, ''h2'') = [r] \<and>
      r \<in> set (commandResults st) \<and> r \<in> set (commandResults st')) \<and>
   (\<exists>st st' r. ExecuteRemoteCommands_v2 [1] (\<lambda>i. demo_world) demo_config [''uptime''] = Some st \<and>
      ExecuteRemoteCommands_v2 [0] (\<lambda>i. if i = 0 then dial_fail_world else demo_world)
        demo_config [''uptime''] = Some st' \<and>
      sent goroutine_v2 (\<lambda>i. demo_world) demo_config [''uptime''] (1, ''h2'') = [r] \<and>
      r \<in> set (commandResults st) \<and> r \<in> set (commandResults st'))"
proof -
  have h1: "(0::nat) < length (Hosts demo_config)"
    by (simp add: demo_config_def)
  have h2: "\<forall>j. j \<noteq> (0::nat) \<longrightarrow>
              (\<lambda>i. if i = 0 then dial_fail_world else demo_world) j = (\<lambda>i. demo_world) j"
    by simp
  have b: "(1::nat) < length (Hosts demo_config)" "(1::nat) \<noteq> 0" "Hosts demo_config ! 1 = ''h2''"
    by (simp_all add: demo_config_def)
  note inst = failure_isolation
    [where a = 0 and config = demo_config and sched = "[1]" and sched' = "[0]"
       and commands = "[''uptime'']" and worlds = "\<lambda>i. demo_world"
       and worlds' = "\<lambda>i. if i = 0 then dial_fail_world else demo_world", OF h1 h2]
  from inst b show ?thesis by metis
qed

text \<open>
  C7.  With a key path configured (a password configured as well or not) and the key
  readable and parsable, the one \<open>ssh.Dial\<close> of the goroutine authenticates with the
  key's signer; with a key path configured no dial ever uses the password.  With only a
  password configured the dial uses the password.  With neither configured the goroutine
  dials nothing and sends a result with a terminal error, and the run returns one such
  result per host.  Both versions.
\<close>

theorem credential_selection:
  "(KeyPath config \<noteq> [] \<and> os_ReadFile w (KeyPath config) = Inr key \<and>
      ssh_ParsePrivateKey w key = Inr signer \<longrightarrow>
      dial_auths (fst (goroutine_v1 w config commands h)) = [[ssh_PublicKeys signer]] \<and>
      dial_auths (fst (goroutine_v2 w config commands h)) = [[ssh_PublicKeys signer]]) \<and>
   (KeyPath config \<noteq> [] \<longrightarrow>
      [ssh_Password (Password config)] \<notin> set (dial_auths (fst (goroutine_v1 w config commands h))) \<and>
      [ssh_Password (Password config)] \<notin> set (dial_auths (fst (goroutine_v2 w config commands h)))) \<and>
   (KeyPath config = [] \<and> Password config \<noteq> [] \<longrightarrow>
      dial_auths (fst (goroutine_v1 w config commands h)) = [[ssh_Password (Password config)]] \<and>
      dial_auths (fst (goroutine_v2 w config commands h)) = [[ssh_Password (Password config)]]) \<and>
   (KeyPath config = [] \<and> Password config = [] \<longrightarrow>
      goroutine_v1 w config commands h =
        ([], [\<lparr>Hostname = h, Output = [], Error = Some ''no auth method''\<rparr>]) \<and>
      goroutine_v2 w config commands h =
        ([], [\<lparr>Hostname = h, Output = [], Error = Some (''dial '' @ h @ '': no auth method'')\<rparr>]) \<and>
      (\<exists>st. ExecuteRemoteCommands_v1 sched worlds config commands = Some st \<and>
            length (commandResults st) = length (Hosts config) \<and>
            (\<forall>r\<in>set (commandResults st). Error r = Some ''no auth method'' \<and> Output r = [])) \<and>
      (\<exists>st. ExecuteRemoteCommands_v2 sched worlds config commands = Some st \<and>
            length (commandResults st) = length (Hosts config) \<and>
            (\<forall>r\<in>set (commandResults st).
               Error r = Some (''dial '' @ Hostname r @ '': no auth method'') \<and> Output r = [])))"
proof (intro conjI impI)
  assume a: "KeyPath config \<noteq> [] \<and> os_ReadFile w (KeyPath config) = Inr key \<and>
      ssh_ParsePrivateKey w key = Inr signer"
  then have "snd (select_authMethod w config) = Inr (ssh_PublicKeys signer)"
    by (simp add: select_authMethod_def)
  then show "dial_auths (fst (goroutine_v1 w config commands h)) = [[ssh_PublicKeys signer]]"
    and "dial_auths (fst (goroutine_v2 w config commands h)) = [[ssh_PublicKeys signer]]"
    by (simp_all add: dial_auths_goroutine_v1 dial_auths_goroutine_v2)
next
  assume a: "KeyPath config \<noteq> []"
  then have "snd (select_authMethod w config) \<noteq> Inr (ssh_Password (Password config))"
    by (auto simp: select_authMethod_def split: sum.splits)
  then show "[ssh_Password (Password config)] \<notin> set (dial_auths (fst (goroutine_v1 w config commands h)))"
    and "[ssh_Password (Password config)] \<notin> set (dial_auths (fst (goroutine_v2 w config commands h)))"
    by (auto simp: dial_auths_goroutine_v1 dial_auths_goroutine_v2 split: sum.splits)
next
  assume a: "KeyPath config = [] \<and> Password config \<noteq> []"
  then have "snd (select_authMethod w config) = Inr (ssh_Password (Password config))"
    by (simp add: select_authMethod_def)
  then show "dial_auths (fst (goroutine_v1 w config commands h)) = [[ssh_Password (Password config)]]"
    and "dial_auths (fst (goroutine_v2 w config commands h)) = [[ssh_Password (Password config)]]"
    by (simp_all add: dial_auths_goroutine_v1 dial_auths_goroutine_v2)
next
  assume a: "KeyPath config = [] \<and> Password config = []"
  then have sel: "select_authMethod w config = ([], Inl ''no auth method'')"
    by (simp add: select_authMethod_def)
  show "goroutine_v1 w config commands h =
        ([], [\<lparr>Hostname = h, Output = [], Error = Some ''no auth method''\<rparr>])"
    by (simp add: goroutine_v1_def sel)
  show "goroutine_v2 w config commands h =
        ([], [\<lparr>Hostname = h, Output = [], Error = Some (''dial '' @ h @ '': no auth method'')\<rparr>])"
    by (simp add: goroutine_v2_def setupSSHClient_def sel)
  have g1: "goroutine_v1 w' config commands h' =
        ([], [\<lparr>Hostname = h', Output = [], Error = Some ''no auth method''\<rparr>])" for w' h'
    using a by (simp add: goroutine_v1_def select_authMethod_def)
  have g2: "goroutine_v2 w' config commands h' =
        ([], [\<lparr>Hostname = h', Output = [], Error = Some (''dial '' @ h' @ '': no auth method'')\<rparr>])"
    for w' h'
    using a by (simp add: goroutine_v2_def setupSSHClient_def select_authMethod_def)
  obtain st1 where st1: "coordinator goroutine_v1 sched worlds config commands = Some st1"
    and l1: "length (commandResults st1) = length (Hosts config)"
    using coordinator_results[OF goroutine_v1_sends_once] by blast
  have "Error r = Some ''no auth method'' \<and> Output r = []" if mem: "r \<in> set (commandResults st1)" for r
  proof -
    obtain i where "sent goroutine_v1 worlds config commands (i, Hosts config ! i) = [r]"
      using returned_result_sent[OF goroutine_v1_sends_once st1 mem] by blast
    then show ?thesis by (auto simp: sent_def g1)
  qed
  with st1 l1
  show "\<exists>st. ExecuteRemoteCommands_v1 sched worlds config commands = Some st \<and>
            length (commandResults st) = length (Hosts config) \<and>
            (\<forall>r\<in>set (commandResults st). Error r = Some ''no auth method'' \<and> Output r = [])"
    unfolding ExecuteRemoteCommands_v1_def by blast
  obtain st2 where st2: "coordinator goroutine_v2 sched worlds config commands = Some st2"
    and l2: "length (commandResults st2) = length (Hosts config)"
    using coordinator_results[OF goroutine_v2_sends_once] by blast
  have "Error r = Some (''dial '' @ Hostname r @ '': no auth method'') \<and> Output r = []"
    if mem: "r \<in> set (commandResults st2)" for r
  proof -
    obtain i where "sent goroutine_v2 worlds config commands (i, Hosts config ! i) = [r]"
      using returned_result_sent[OF goroutine_v2_sends_once st2 mem] by blast
    then show ?thesis by (auto simp: sent_def g2)
  qed
  with st2 l2
  show "\<exists>st. ExecuteRemoteCommands_v2 sched worlds config commands = Some st \<and>
            length (commandResults st) = length (Hosts config) \<and>
            (\<forall>r\<in>set (commandResults st).
               Error r = Some (''dial '' @ Hostname r @ '': no auth method'') \<and> Output r = [])"
    unfolding ExecuteRemoteCommands_v2_def by blast
qed

theorem credential_selection_witness:
  "(KeyPath both_config \<noteq> [] \<and> Password both_config \<noteq> [] \<and>
    os_ReadFile demo_world (KeyPath both_config) = Inr ''KEY'' \<and>
    ssh_ParsePrivateKey demo_world ''KEY'' = Inr (Signer ''KEY'') \<and>
    dial_auths (fst (goroutine_v1 demo_world both_config [''uptime''] ''h1'')) =
      [[ssh_PublicKeys (Signer ''KEY'')]] \<and>
    dial_auths (fst (goroutine_v2 demo_world both_config [''uptime''] ''h1'')) =
      [[ssh_PublicKeys (Signer ''KEY'')]] \<and>
    [ssh_Password (Password both_config)] \<notin>
      set (dial_auths (fst (goroutine_v1 demo_world both_config [''uptime''] ''h1''))) \<and>
    [ssh_Password (Password both_config)] \<notin>
      set (dial_auths (fst (goroutine_v2 demo_world both_config [''uptime''] ''h1'')))) \<and>
   (KeyPath password_config = [] \<and> Password password_config \<noteq> [] \<and>
    dial_auths (fst (goroutine_v1 demo_world password_config [''uptime''] ''h1'')) =
      [[ssh_Password ''secret'']] \<and>
    dial_auths (fst (goroutine_v2 demo_world password_config [''uptime''] ''h1'')) =
      [[ssh_Password ''secret'']]) \<and>
   (KeyPath no_auth_config = [] \<and> Password no_auth_config = [] \<and>
    (\<exists>st. ExecuteRemoteCommands_v1 [1] (\<lambda>i. demo_world) no_auth_config [''uptime''] = Some st \<and>
       length (commandResults st) = 2) \<and>
    (\<exists>st. ExecuteRemoteCommands_v2 [1] (\<lambda>i. demo_world) no_auth_config [''uptime''] = Some st \<and>
       length (commandResults st) = 2))"
proof -
  have k: "KeyPath both_config \<noteq> [] \<and> os_ReadFile demo_world (KeyPath both_config) = Inr ''KEY'' \<and>
      ssh_ParsePrivateKey demo_world ''KEY'' = Inr (Signer ''KEY'')"
    and kp: "Password both_config \<noteq> []"
    by (simp_all add: both_config_def demo_config_def demo_world_def)
  have p: "KeyPath password_config = [] \<and> Password password_config \<noteq> []"
    and pw: "Password password_config = ''secret''"
    by (simp_all add: password_config_def demo_config_def)
  have n: "KeyPath no_auth_config = [] \<and> Password no_auth_config = []"
    and nl: "length (Hosts no_auth_config) = 2"
    by (simp_all add: no_auth_config_def demo_config_def)
  note c1 = credential_selection[where config = both_config and w = demo_world and key = "''KEY''"
      and signer = "Signer ''KEY''" and commands = "[''uptime'']" and h = "''h1''",
      THEN conjunct1, rule_format, OF k]
  note c1' = credential_selection[where config = both_config and w = demo_world
      and commands = "[''uptime'']" and h = "''h1''",
      THEN conjunct2, THEN conjunct1, rule_format, OF k[THEN conjunct1]]
  note c2 = credential_selection[where config = password_config and w = demo_world
      and commands = "[''uptime'']" and h = "''h1''",
      THEN conjunct2, THEN conjunct2, THEN conjunct1, rule_format, OF p]
  note c3 = credential_selection[where config = no_auth_config and w = demo_world
      and worlds = "\<lambda>i. demo_world" and sched = "[1]" and commands = "[''uptime'']" and h = "''h1''",
      THEN conjunct2, THEN conjunct2, THEN conjunct2, rule_format, OF n]
  from c3 have c3': "(\<exists>st. ExecuteRemoteCommands_v1 [1] (\<lambda>i. demo_world) no_auth_config [''uptime''] = Some st \<and>
       length (commandResults st) = 2) \<and>
    (\<exists>st. ExecuteRemoteCommands_v2 [1] (\<lambda>i. demo_world) no_auth_config [''uptime''] = Some st \<and>
       length (commandResults st) = 2)"
    unfolding nl by blast
  show ?thesis
    using k kp p n c1 c1' c2[unfolded pw] c3' by blast
qed

text \<open>
  C8 (as amended).  Under any two schedules and the same behaviour of the hosts, the two
  versions return results for the same hostnames, and the same multiset of results when,
  for every host, the credential is selected successfully and either the dial fails or
  every command's session and pipe are created and every command starts.  For one host,
  the two goroutine bodies send the same result exactly under that condition.
\<close>

theorem versions_agree_without_wrapped_failures:
  "(\<exists>st1 st2. ExecuteRemoteCommands_v1 sched worlds config commands = Some st1 \<and>
      ExecuteRemoteCommands_v2 sched' worlds config commands = Some st2 \<and>
      mset (map Hostname (commandResults st1)) = mset (map Hostname (commandResults st2)) \<and>
      ((\<forall>i<length (Hosts config).
          agreeing_behaviour (worlds i) config commands (Hosts config ! i)) \<longrightarrow>
       mset (commandResults st1) = mset (commandResults st2))) \<and>
   (snd (goroutine_v1 w config commands h) = snd (goroutine_v2 w config commands h) \<longleftrightarrow>
      agreeing_behaviour w config commands h)"
proof
  obtain st1 where st1: "coordinator goroutine_v1 sched worlds config commands = Some st1"
    and m1: "mset (commandResults st1) =
      mset (concat (map (sent goroutine_v1 worlds config commands) (enumerate 0 (Hosts config))))"
    using coordinator_results[OF goroutine_v1_sends_once] by blast
  obtain st2 where st2: "coordinator goroutine_v2 sched' worlds config commands = Some st2"
    and m2: "mset (commandResults st2) =
      mset (concat (map (sent goroutine_v2 worlds config commands) (enumerate 0 (Hosts config))))"
    using coordinator_results[OF goroutine_v2_sends_once] by blast
  have "mset (map Hostname (commandResults st1)) = mset (Hosts config)"
    using coordinator_hostnames[OF goroutine_v1_sends_once, of sched worlds config commands] st1
    by auto
  moreover have "mset (map Hostname (commandResults st2)) = mset (Hosts config)"
    using coordinator_hostnames[OF goroutine_v2_sends_once, of sched' worlds config commands] st2
    by auto
  ultimately have names:
    "mset (map Hostname (commandResults st1)) = mset (map Hostname (commandResults st2))"
    by simp
  have "mset (commandResults st1) = mset (commandResults st2)"
    if "\<forall>i<length (Hosts config). agreeing_behaviour (worlds i) config commands (Hosts config ! i)"
    unfolding m1 m2 sent_agree[OF that] ..
  with st1 st2 names
  show "\<exists>st1 st2. ExecuteRemoteCommands_v1 sched worlds config commands = Some st1 \<and>
      ExecuteRemoteCommands_v2 sched' worlds config commands = Some st2 \<and>
      mset (map Hostname (commandResults st1)) = mset (map Hostname (commandResults st2)) \<and>
      ((\<forall>i<length (Hosts config).
          agreeing_behaviour (worlds i) config commands (Hosts config ! i)) \<longrightarrow>
       mset (commandResults st1) = mset (commandResults st2))"
    unfolding ExecuteRemoteCommands_v1_def ExecuteRemoteCommands_v2_def by blast
next
  show "snd (goroutine_v1 w config commands h) = snd (goroutine_v2 w config commands h) \<longleftrightarrow>
      agreeing_behaviour w config commands h"
    by (rule goroutines_agree_iff)
qed

theorem versions_agree_without_wrapped_failures_witness:
  "agreeing_behaviour dial_fail_world demo_config [''uptime''] ''h1'' \<and>
   agreeing_behaviour demo_world demo_config [''uptime''] ''h2'' \<and>
   (\<exists>st1 st2.
      ExecuteRemoteCommands_v1 [1] (\<lambda>i. if i = 0 then dial_fail_world else demo_world)
        demo_config [''uptime''] = Some st1 \<and>
      ExecuteRemoteCommands_v2 [0] (\<lambda>i. if i = 0 then dial_fail_world else demo_world)
        demo_config [''uptime''] = Some st2 \<and>
      mset (commandResults st1) = mset (commandResults st2))"
proof -
  let ?worlds = "\<lambda>i::nat. if i = 0 then dial_fail_world else demo_world"
  have a1: "agreeing_behaviour dial_fail_world demo_config [''uptime''] ''h1''"
    by (simp add: agreeing_behaviour_def eval_defs)
  have a2: "agreeing_behaviour demo_world demo_config [''uptime''] ''h2''"
    by (simp add: agreeing_behaviour_def eval_defs session_ok_def no_command_failure_Cons
        no_command_failure_Nil)
  have hyp: "\<forall>i<length (Hosts demo_config).
               agreeing_behaviour (?worlds i) demo_config [''uptime''] (Hosts demo_config ! i)"
  proof (intro allI impI)
    fix i assume "i < length (Hosts demo_config)"
    then have "i = 0 \<or> i = 1" by (auto simp: demo_config_def)
    then show "agreeing_behaviour (?worlds i) demo_config [''uptime''] (Hosts demo_config ! i)"
      using a1 a2 by (auto simp: demo_config_def)
  qed
  from versions_agree_without_wrapped_failures
    [where sched = "[1]" and sched' = "[0]" and worlds = ?worlds and config = demo_config
       and commands = "[''uptime'']", THEN conjunct1] hyp
  have "\<exists>st1 st2.
      ExecuteRemoteCommands_v1 [1] ?worlds demo_config [''uptime''] = Some st1 \<and>
      ExecuteRemoteCommands_v2 [0] ?worlds demo_config [''uptime''] = Some st2 \<and>
      mset (commandResults st1) = mset (commandResults st2)"
    by blast
  with a1 a2 show ?thesis by blast
qed

text \<open>
  C8 as stated fails: with no credential configured the inline version reports
  \<open>no auth method\<close> and the refactored one \<open>dial h1: no auth method\<close>; when a command
  fails to start, the refactored version's failure note carries the prefix
  \<open>start command: \<close>, which the inline version's note does not; and when a session
  cannot be created, the inline version reports a terminal error and the refactored one
  a failure note.
\<close>

theorem versions_differ_counterexample:
  "returned (ExecuteRemoteCommands_v1 [] (\<lambda>i. demo_world) (no_auth_config\<lparr>Hosts := [''h1'']\<rparr>)
      [''uptime'']) =
     Some [\<lparr>Hostname = ''h1'', Output = [], Error = Some ''no auth method''\<rparr>] \<and>
   returned (ExecuteRemoteCommands_v2 [] (\<lambda>i. demo_world) (no_auth_config\<lparr>Hosts := [''h1'']\<rparr>)
      [''uptime'']) =
     Some [\<lparr>Hostname = ''h1'', Output = [], Error = Some ''dial h1: no auth method''\<rparr>] \<and>
   map_option mset (returned (ExecuteRemoteCommands_v1 [] (\<lambda>i. demo_world)
      (no_auth_config\<lparr>Hosts := [''h1'']\<rparr>) [''uptime''])) \<noteq>
   map_option mset (returned (ExecuteRemoteCommands_v2 [] (\<lambda>i. demo_world)
      (no_auth_config\<lparr>Hosts := [''h1'']\<rparr>) [''uptime''])) \<and>
   returned (ExecuteRemoteCommands_v1 [] (\<lambda>i. start_fail_world) (demo_config\<lparr>Hosts := [''h1'']\<rparr>)
      [''uname -a'', ''df -h'']) =
     Some [\<lparr>Hostname = ''h1'',
            Output = Sprintf_output ''uname -a'' ''ok'' @ Sprintf_failed ''df -h'' ''exec failed'',
            Error = None\<rparr>] \<and>
   returned (ExecuteRemoteCommands_v2 [] (\<lambda>i. start_fail_world) (demo_config\<lparr>Hosts := [''h1'']\<rparr>)
      [''uname -a'', ''df -h'']) =
     Some [\<lparr>Hostname = ''h1'',
            Output = Sprintf_output ''uname -a'' ''ok'' @
                     Sprintf_failed ''df -h'' ''start command: exec failed'',
            Error = None\<rparr>] \<and>
   returned (ExecuteRemoteCommands_v1 [] (\<lambda>i. session_fail_world) (demo_config\<lparr>Hosts := [''h1'']\<rparr>)
      [''uname -a'', ''df -h'']) =
     Some [\<lparr>Hostname = ''h1'', Output = [], Error = Some ''session: EOF''\<rparr>] \<and>
   returned (ExecuteRemoteCommands_v2 [] (\<lambda>i. session_fail_world) (demo_config\<lparr>Hosts := [''h1'']\<rparr>)
      [''uname -a'', ''df -h'']) =
     Some [\<lparr>Hostname = ''h1'',
            Output = Sprintf_output ''uname -a'' ''ok'' @
                     Sprintf_failed ''df -h'' ''session: EOF'',
            Error = None\<rparr>]"
  by (simp add: run_defs eval_defs no_auth_config_def start_fail_world_def)

text \<open>
  C9.  In every result returned by either version, a terminal error comes with an empty
  output.  In the inline version this includes a failure after some commands have
  produced output: that output is dropped.
\<close>

theorem terminal_error_implies_empty_output:
  "(\<exists>st. ExecuteRemoteCommands_v1 sched worlds config commands = Some st \<and>
         (\<forall>r\<in>set (commandResults st). Error r \<noteq> None \<longrightarrow> Output r = [])) \<and>
   (\<exists>st. ExecuteRemoteCommands_v2 sched worlds config commands = Some st \<and>
         (\<forall>r\<in>set (commandResults st). Error r \<noteq> None \<longrightarrow> Output r = []))"
proof
  obtain st where st: "coordinator goroutine_v1 sched worlds config commands = Some st"
    using coordinator_results[OF goroutine_v1_sends_once] by blast
  have "Output r = []" if mem: "r \<in> set (commandResults st)" and err: "Error r \<noteq> None" for r
  proof -
    obtain i where "sent goroutine_v1 worlds config commands (i, Hosts config ! i) = [r]"
      using returned_result_sent[OF goroutine_v1_sends_once st mem] by blast
    then show ?thesis
      using goroutine_v1_error_output err by (simp add: sent_def)
  qed
  with st show "\<exists>st. ExecuteRemoteCommands_v1 sched worlds config commands = Some st \<and>
         (\<forall>r\<in>set (commandResults st). Error r \<noteq> None \<longrightarrow> Output r = [])"
    unfolding ExecuteRemoteCommands_v1_def by blast
next
  obtain st where st: "coordinator goroutine_v2 sched worlds config commands = Some st"
    using coordinator_results[OF goroutine_v2_sends_once] by blast
  have "Output r = []" if mem: "r \<in> set (commandResults st)" and err: "Error r \<noteq> None" for r
  proof -
    obtain i where "sent goroutine_v2 worlds config commands (i, Hosts config ! i) = [r]"
      using returned_result_sent[OF goroutine_v2_sends_once st mem] by blast
    then show ?thesis
      using goroutine_v2_error_output err by (simp add: sent_def)
  qed
  with st show "\<exists>st. ExecuteRemoteCommands_v2 sched worlds config commands = Some st \<and>
         (\<forall>r\<in>set (commandResults st). Error r \<noteq> None \<longrightarrow> Output r = [])"
    unfolding ExecuteRemoteCommands_v2_def by blast
qed

theorem terminal_error_implies_empty_output_witness:
  "\<exists>st r. ExecuteRemoteCommands_v1 [1] (\<lambda>i. if i = 0 then session_fail_world else demo_world)
            demo_config [''uname -a'', ''df -h''] = Some st \<and>
          r \<in> set (commandResults st) \<and> Hostname r = ''h1'' \<and>
          Error r = Some ''session: EOF'' \<and> Output r = []"
proof -
  let ?run = "ExecuteRemoteCommands_v1 [1] (\<lambda>i. if i = 0 then session_fail_world else demo_world)
            demo_config [''uname -a'', ''df -h'']"
  obtain st where st: "?run = Some st"
    and all: "\<forall>r\<in>set (commandResults st). Error r \<noteq> None \<longrightarrow> Output r = []"
    using terminal_error_implies_empty_output by blast
  have "map (\<lambda>r. (Hostname r, Error r)) (the (returned ?run)) =
          [(''h2'', None), (''h1'', Some ''session: EOF'')]"
    by (simp add: run_defs eval_defs)
  then have "\<exists>r\<in>set (commandResults st). Hostname r = ''h1'' \<and> Error r = Some ''session: EOF''"
    using st by (auto simp: returned_def map_eq_Cons_conv)
  then obtain r where r: "r \<in> set (commandResults st)" "Hostname r = ''h1''"
    "Error r = Some ''session: EOF''"
    by blast
  with all have "Output r = []" by auto
  with r st show ?thesis by blast
qed

text \<open>
  C10.  The configuration (its host list included) and the command list held in the
  memory the goroutines share are, when the call returns, the values the call was given.
\<close>

theorem inputs_not_mutated:
  "(\<exists>st. ExecuteRemoteCommands_v1 sched worlds config commands = Some st \<and>
         mem_config st = config \<and> mem_commands st = commands) \<and>
   (\<exists>st. ExecuteRemoteCommands_v2 sched worlds config commands = Some st \<and>
         mem_config st = config \<and> mem_commands st = commands)"
  unfolding ExecuteRemoteCommands_v1_def ExecuteRemoteCommands_v2_def
  using coordinator_results[OF goroutine_v1_sends_once, of sched worlds config commands]
        coordinator_results[OF goroutine_v2_sends_once, of sched worlds config commands]
  by blast

theorem inputs_not_mutated_witness:
  "(\<exists>st. ExecuteRemoteCommands_v1 [1] (\<lambda>i. demo_world) demo_config [''uptime'', ''nproc''] = Some st \<and>
         Hosts (mem_config st) = [''h1'', ''h2''] \<and> mem_commands st = [''uptime'', ''nproc'']) \<and>
   (\<exists>st. ExecuteRemoteCommands_v2 [1] (\<lambda>i. demo_world) demo_config [''uptime'', ''nproc''] = Some st \<and>
         Hosts (mem_config st) = [''h1'', ''h2''] \<and> mem_commands st = [''uptime'', ''nproc''])"
  using inputs_not_mutated[of "[1]" "\<lambda>i. demo_world" demo_config "[''uptime'', ''nproc'']"]
  by (auto simp: demo_config_def)

end
